theory Spec2Isabelle
  imports Complex_Main
begin

section \<open>The T-maze environment and its PPO training loop\<close>

text \<open>
  The development embeds two files. \<^verbatim>\<open>main_dqn.py\<close> holds the environment
  \<^verbatim>\<open>TMaze\<close> (map generation, observation with oracle hint and grey decoys, four-way
  movement). \<^verbatim>\<open>main.py\<close> holds the on-policy training loop (compute penalty, backward
  advantage pass). Python floats are embedded as \<^typ>\<open>real\<close>: the theorems speak about the
  formulas the code evaluates, not about rounding.
\<close>

subsection \<open>Errors\<close>

text \<open>
  Every exception the embedded code can raise is a value. \<open>AssertionError\<close> comes from
  the \<^verbatim>\<open>assert\<close> statements of \<^verbatim>\<open>_gen_grid\<close> and of the grid accessors,
  \<open>AttributeError\<close> from looking up a member the enumeration \<^verbatim>\<open>Actions\<close> does not
  have, \<open>ZeroDivisionError\<close> from the reward formula, \<open>ValueError\<close> from the last
  branch of \<^verbatim>\<open>step\<close>, \<open>TypeError\<close> from \<^verbatim>\<open>float\<close> applied to an array of more
  than one element.
\<close>

datatype error =
  AssertionError | AttributeError | IndexError | ZeroDivisionError | ValueError | TypeError

text \<open>
  The methods mutate \<^verbatim>\<open>self\<close> and may raise part-way, so a method is a function
  from the state before to an outcome and the state at that moment: \<open>Inr\<close> a returned
  value, \<open>Inl\<close> the exception, beside the state as mutated so far.
\<close>

type_synonym ('s, 'a) prog = "'s \<Rightarrow> (error + 'a) \<times> 's"

definition ret :: "'a \<Rightarrow> ('s, 'a) prog" where
  "ret x = (\<lambda>s. (Inr x, s))"

definition raise :: "error \<Rightarrow> ('s, 'a) prog" where
  "raise e = (\<lambda>s. (Inl e, s))"

definition bind :: "('s, 'a) prog \<Rightarrow> ('a \<Rightarrow> ('s, 'b) prog) \<Rightarrow> ('s, 'b) prog" where
  "bind m f = (\<lambda>s. case m s of (Inl e, s') \<Rightarrow> (Inl e, s') | (Inr x, s') \<Rightarrow> f x s')"

definition seq :: "('s, unit) prog \<Rightarrow> ('s, 'b) prog \<Rightarrow> ('s, 'b) prog" where
  "seq m n = bind m (\<lambda>_. n)"

definition gets :: "('s \<Rightarrow> 'a) \<Rightarrow> ('s, 'a) prog" where
  "gets f = (\<lambda>s. (Inr (f s), s))"

definition modify :: "('s \<Rightarrow> 's) \<Rightarrow> ('s, unit) prog" where
  "modify f = (\<lambda>s. (Inr (), f s))"

definition assert_that :: "bool \<Rightarrow> ('s, unit) prog" where
  "assert_that b = (if b then ret () else raise AssertionError)"

text \<open>\<^verbatim>\<open>for x in xs: body(x)\<close>; an exception in the body ends the loop.\<close>

fun for_each :: "'a list \<Rightarrow> ('a \<Rightarrow> ('s, unit) prog) \<Rightarrow> ('s, unit) prog" where
  "for_each [] body = ret ()"
| "for_each (x # xs) body = seq (body x) (for_each xs body)"

text \<open>A block of statements, run in order.\<close>

definition block :: "('s, unit) prog list \<Rightarrow> ('s, unit) prog" where
  "block ms = for_each ms (\<lambda>m. m)"

text \<open>\<^verbatim>\<open>range(0, n)\<close>: empty when \<open>n \<le> 0\<close>.\<close>

definition py_range :: "int \<Rightarrow> int list" where
  "py_range n = map int [0..<nat n]"

text \<open>\<^verbatim>\<open>xs[i]\<close> on a Python list: a negative index counts from the end.\<close>

definition py_index :: "'a list \<Rightarrow> int \<Rightarrow> ('s, 'a) prog" where
  "py_index xs i =
     (if 0 \<le> i \<and> i < int (length xs) then ret (xs ! nat i)
      else if - int (length xs) \<le> i \<and> i < 0 then ret (xs ! nat (int (length xs) + i))
      else raise IndexError)"

subsection \<open>World objects and the grid\<close>

text \<open>
  The classes \<^verbatim>\<open>Goal\<close>, \<^verbatim>\<open>Lava\<close>, \<^verbatim>\<open>Wall\<close> and \<^verbatim>\<open>Grid\<close> are imported from the
  minigrid package. What the environment uses of them is embedded here: the type tag of an
  object, whether the agent may stand on it, and a grid of \<^verbatim>\<open>width * height\<close> cells, each
  empty (\<^verbatim>\<open>None\<close>) or holding one object, whose accessors assert that the coordinates
  are inside. The environment builds \<^verbatim>\<open>Goal()\<close> (green, the package's default) and
  \<^verbatim>\<open>Goal("grey")\<close>; both carry the type tag \<^verbatim>\<open>"goal"\<close>. The package stores the cells
  in a flat list indexed by \<^verbatim>\<open>j * width + i\<close>; since every access asserts
  \<^verbatim>\<open>0 <= i < width\<close> and \<^verbatim>\<open>0 <= j < height\<close>, a function from coordinates is the
  same store.
\<close>

datatype colour = Green | Grey

datatype world_obj = Wall | Goal colour | Lava

fun obj_type :: "world_obj \<Rightarrow> string" where
  "obj_type Wall = ''wall''"
| "obj_type (Goal c) = ''goal''"
| "obj_type Lava = ''lava''"

fun can_overlap :: "world_obj \<Rightarrow> bool" where
  "can_overlap Wall = False"
| "can_overlap (Goal c) = True"
| "can_overlap Lava = True"

record Grid =
  gwidth :: int
  gheight :: int
  cells :: "int \<times> int \<Rightarrow> world_obj option"

text \<open>\<^verbatim>\<open>Grid(width, height)\<close>: asserts \<^verbatim>\<open>width >= 3\<close>, then \<^verbatim>\<open>height >= 3\<close>.\<close>

definition Grid_init :: "int \<Rightarrow> int \<Rightarrow> error + Grid" where
  "Grid_init w h =
     (if \<not> 3 \<le> w then Inl AssertionError
      else if \<not> 3 \<le> h then Inl AssertionError
      else Inr \<lparr> gwidth = w, gheight = h, cells = (\<lambda>p. None) \<rparr>)"

definition inside :: "Grid \<Rightarrow> int \<Rightarrow> int \<Rightarrow> bool" where
  "inside g i j \<longleftrightarrow> 0 \<le> i \<and> i < gwidth g \<and> 0 \<le> j \<and> j < gheight g"

definition grid_set :: "int \<Rightarrow> int \<Rightarrow> world_obj option \<Rightarrow> (Grid, unit) prog" where
  "grid_set i j v =
     bind (gets (\<lambda>g. inside g i j)) (\<lambda>ok.
     seq (assert_that ok)
         (modify (\<lambda>g. g\<lparr> cells := (cells g)((i, j) := v) \<rparr>)))"

definition grid_get :: "int \<Rightarrow> int \<Rightarrow> (Grid, world_obj option) prog" where
  "grid_get i j =
     bind (gets (\<lambda>g. inside g i j)) (\<lambda>ok.
     seq (assert_that ok)
         (gets (\<lambda>g. cells g (i, j))))"

text \<open>
  \<^verbatim>\<open>horz_wall(x, y, length)\<close> sets \<^verbatim>\<open>(x + i, y)\<close> to a new \<^verbatim>\<open>Wall()\<close> for
  \<^verbatim>\<open>i in range(0, length)\<close>; \<^verbatim>\<open>vert_wall\<close> does the same downwards;
  \<^verbatim>\<open>wall_rect(x, y, w, h)\<close> draws the four sides.
\<close>

definition horz_wall :: "int \<Rightarrow> int \<Rightarrow> int \<Rightarrow> (Grid, unit) prog" where
  "horz_wall x y len = for_each (py_range len) (\<lambda>i. grid_set (x + i) y (Some Wall))"

definition vert_wall :: "int \<Rightarrow> int \<Rightarrow> int \<Rightarrow> (Grid, unit) prog" where
  "vert_wall x y len = for_each (py_range len) (\<lambda>j. grid_set x (y + j) (Some Wall))"

definition wall_rect :: "int \<Rightarrow> int \<Rightarrow> int \<Rightarrow> int \<Rightarrow> (Grid, unit) prog" where
  "wall_rect x y w h =
     seq (horz_wall x y w)
    (seq (horz_wall x (y + h - 1) w)
    (seq (vert_wall x y h)
         (vert_wall (x + w - 1) y h)))"

subsection \<open>The random generator\<close>

text \<open>
  The environment draws from \<^verbatim>\<open>self.np_random\<close>, a numpy generator created from the
  seed by the gymnasium package. The generator is a parameter of the embedding: a type of
  generator states and the four operations the environment calls, each returning the drawn
  value and the next state. \<open>rng_seed s\<close> is the state of a generator seeded with
  \<open>s\<close>; \<open>rng_integers h\<close> is \<^verbatim>\<open>integers(h)\<close>; \<open>rng_random\<close> is \<^verbatim>\<open>random()\<close>;
  \<open>rng_uniform lo hi n\<close> is \<^verbatim>\<open>uniform(low=lo, high=hi, size=n)\<close>.
\<close>

record 'g generator =
  rng_seed :: "int \<Rightarrow> 'g"
  rng_integers :: "int \<Rightarrow> 'g \<Rightarrow> int \<times> 'g"
  rng_random :: "'g \<Rightarrow> real \<times> 'g"
  rng_uniform :: "real \<Rightarrow> real \<Rightarrow> nat \<Rightarrow> 'g \<Rightarrow> real list \<times> 'g"

text \<open>
  What numpy documents of these draws: \<^verbatim>\<open>integers(h)\<close> lies in \<open>[0, h)\<close>,
  \<^verbatim>\<open>random()\<close> in \<open>[0, 1)\<close>, and \<^verbatim>\<open>uniform(lo, hi, n)\<close> is \<open>n\<close> numbers in
  \<open>[lo, hi)\<close>.
\<close>

definition numpy_contract :: "'g generator \<Rightarrow> bool" where
  "numpy_contract G \<longleftrightarrow>
     (\<forall>h g. 0 < h \<longrightarrow> 0 \<le> fst (rng_integers G h g) \<and> fst (rng_integers G h g) < h) \<and>
     (\<forall>g. 0 \<le> fst (rng_random G g) \<and> fst (rng_random G g) < 1) \<and>
     (\<forall>lo hi n g. lo < hi \<longrightarrow> length (fst (rng_uniform G lo hi n g)) = n \<and>
        (\<forall>x \<in> set (fst (rng_uniform G lo hi n g)). lo \<le> x \<and> x < hi))"

subsection \<open>The environment state (class TMaze, main_dqn.py)\<close>

text \<open>
  The attributes of \<^verbatim>\<open>TMaze\<close> that the embedded methods read or write. \<^verbatim>\<open>width\<close>,
  \<^verbatim>\<open>height\<close>, \<^verbatim>\<open>max_steps\<close>, \<^verbatim>\<open>grid\<close>, \<^verbatim>\<open>agent_pos\<close>, \<^verbatim>\<open>agent_dir\<close>,
  \<^verbatim>\<open>step_count\<close> and \<^verbatim>\<open>np_random\<close> are attributes of the base classes. Before the
  first reset \<^verbatim>\<open>goal_position\<close> is \<^verbatim>\<open>None\<close> and \<^verbatim>\<open>lava_position\<close> and
  \<^verbatim>\<open>arrow_q_values\<close> do not exist; they are \<open>None\<close> and \<open>[]\<close> here.
\<close>

record 'g TMaze =
  width :: int
  height :: int
  max_steps :: int
  grid :: Grid
  agent_pos :: "int \<times> int"
  agent_dir :: int
  step_count :: int
  goal_position :: "(int \<times> int) option"
  lava_position :: "(int \<times> int) option"
  arrow_q_values :: "real list"
  path_episode_threshold :: int
  num_episodes :: int
  np_random :: 'g

text \<open>A method of the grid, run on \<^verbatim>\<open>self.grid\<close>.\<close>

definition on_grid :: "(Grid, 'a) prog \<Rightarrow> ('g TMaze, 'a) prog" where
  "on_grid m = (\<lambda>e. case m (grid e) of (r, g') \<Rightarrow> (r, e\<lparr> grid := g' \<rparr>))"

text \<open>A draw: the value is returned and the generator state advances.\<close>

definition draw :: "('g \<Rightarrow> 'a \<times> 'g) \<Rightarrow> ('g TMaze, 'a) prog" where
  "draw d = (\<lambda>e. case d (np_random e) of (x, g') \<Rightarrow> (Inr x, e\<lparr> np_random := g' \<rparr>))"

text \<open>
  \<^verbatim>\<open>put_obj(obj, i, j)\<close> of the base class: \<^verbatim>\<open>self.grid.set(i, j, obj)\<close>, then the
  object records its position (objects carry no position here).
\<close>

definition put_obj :: "world_obj \<Rightarrow> int \<Rightarrow> int \<Rightarrow> ('g TMaze, unit) prog" where
  "put_obj obj i j = on_grid (grid_set i j (Some obj))"

text \<open>\<^verbatim>\<open>self.action_space = gym.spaces.Discrete(4)\<close>.\<close>

definition action_space_n :: nat where
  "action_space_n = 4"

text \<open>
  \<^verbatim>\<open>TMaze.__init__(size, max_steps)\<close>: the default \<^verbatim>\<open>max_steps\<close> is
  \<^verbatim>\<open>2 * size**2\<close>; the base class sets \<^verbatim>\<open>width = height = size\<close> and builds
  \<^verbatim>\<open>Grid(width, height)\<close>, which asserts that both are at least 3. \<open>g0\<close> is the state
  of the generator the environment starts with.
\<close>

definition TMaze_init :: "int \<Rightarrow> int option \<Rightarrow> 'g \<Rightarrow> error + 'g TMaze" where
  "TMaze_init sz ms g0 =
     (let max_steps' = (case ms of None \<Rightarrow> 2 * sz ^ 2 | Some m \<Rightarrow> m)
      in case Grid_init sz sz of
           Inl e \<Rightarrow> Inl e
         | Inr gr \<Rightarrow> Inr \<lparr> width = sz, height = sz, max_steps = max_steps', grid = gr,
             agent_pos = (-1, -1), agent_dir = -1, step_count = 0,
             goal_position = None, lava_position = None, arrow_q_values = [],
             path_episode_threshold = 2000, num_episodes = 0, np_random = g0 \<rparr>)"

subsection \<open>Map generation (TMaze._gen_grid, main_dqn.py lines 426 to 517)\<close>

definition new_grid :: "int \<Rightarrow> int \<Rightarrow> ('g TMaze, unit) prog" where
  "new_grid w h =
     (case Grid_init w h of
        Inl e \<Rightarrow> raise e
      | Inr gr \<Rightarrow> modify (\<lambda>e. e\<lparr> grid := gr \<rparr>))"

definition gen_grid :: "'g generator \<Rightarrow> int \<Rightarrow> int \<Rightarrow> ('g TMaze, unit) prog" where
  "gen_grid G w h = block
     [assert_that (w mod 2 = 1 \<and> h mod 2 = 1),
      new_grid w h,
      on_grid (wall_rect 0 0 w h),
      on_grid (vert_wall (w div 2 - 1) 2 (h - 3)),
      on_grid (vert_wall (w div 2 + 1) 2 (h - 3)),
      on_grid (horz_wall 0 0 w),
      on_grid (horz_wall 0 2 (w div 2)),
      on_grid (horz_wall (w div 2 + 1) 2 (w div 2)),
      modify (\<lambda>e. e\<lparr> agent_pos := (w div 2, h - 2) \<rparr>),
      modify (\<lambda>e. e\<lparr> agent_dir := 3 \<rparr>),
      bind (draw (rng_integers G 2)) (\<lambda>goal_choice.
      bind (py_index [(1, 1), (w - 2, 1)] goal_choice) (\<lambda>gp.
      seq (modify (\<lambda>e. e\<lparr> goal_position := Some gp \<rparr>))
     (bind (py_index [(1, 1), (w - 2, 1)] (1 - goal_choice)) (\<lambda>lp. block
        [modify (\<lambda>e. e\<lparr> lava_position := Some lp \<rparr>),
         modify (\<lambda>e. e\<lparr> arrow_q_values :=
            (replicate action_space_n 0)[(if gp = (w - 2, 1) then 1 else 0) := 1] \<rparr>),
         put_obj (Goal Green) (fst gp) (snd gp),
         put_obj Lava (fst lp) (snd lp)]))))]"

subsection \<open>Observation (TMaze.gen_obs, main_dqn.py lines 519 to 575)\<close>

text \<open>
  The observation dictionary without its \<^verbatim>\<open>"image"\<close> entry. The image is computed by
  \<^verbatim>\<open>gen_obs_grid\<close> and \<^verbatim>\<open>encode\<close> of the minigrid package from a copy of the part
  of the grid in view; that computation draws no random number and writes nothing to the
  environment, and no statement below depends on it.
\<close>

record obs =
  direction :: int
  mission :: string
  position :: "int \<times> int"
  arrow :: "real list"

definition left_box :: "int \<Rightarrow> int \<Rightarrow> int \<times> int" where
  "left_box W H = (W * 3 div 4 - 1, H * 2 div 3 - 1)"

definition right_box :: "int \<Rightarrow> int \<Rightarrow> int \<times> int" where
  "right_box W H = (W * 3 div 4 + 1, H * 2 div 3 - 1)"

definition up_box :: "int \<Rightarrow> int \<Rightarrow> int \<times> int" where
  "up_box W H = (W * 3 div 4, H * 2 div 3 - 2)"

definition down_box :: "int \<Rightarrow> int \<Rightarrow> int \<times> int" where
  "down_box W H = (W * 3 div 4, H * 2 div 3)"

definition box_locations :: "int \<Rightarrow> int \<Rightarrow> (int \<times> int) list" where
  "box_locations W H = [left_box W H, right_box W H, up_box W H, down_box W H]"

text \<open>\<^verbatim>\<open>grey_box = Goal("grey")\<close>.\<close>

definition grey_box :: world_obj where
  "grey_box = Goal Grey"

text \<open>
  The cell that receives the decoy once the episode counter has passed the threshold
  (lines 540 to 543).
\<close>

definition decoy_target :: "int \<Rightarrow> int \<Rightarrow> (int \<times> int) option \<Rightarrow> int \<times> int \<Rightarrow> int \<times> int" where
  "decoy_target W H gp pos =
     (let goal_is_right = (gp = Some (W - 2, 1))
      in if snd pos = 1 then (if goal_is_right then right_box W H else left_box W H)
         else up_box W H)"

text \<open>The bodies of the two loops over \<^verbatim>\<open>box_locations\<close> (lines 529 to 530, 548 to 550).\<close>

definition clear_box :: "int \<times> int \<Rightarrow> ('g TMaze, unit) prog" where
  "clear_box box = on_grid (grid_set (fst box) (snd box) None)"

definition maybe_place :: "'g generator \<Rightarrow> int \<times> int \<Rightarrow> ('g TMaze, unit) prog" where
  "maybe_place G box =
     bind (draw (rng_random G)) (\<lambda>r.
     if r < 0.5 then put_obj grey_box (fst box) (snd box) else ret ())"

definition place_decoys :: "'g generator \<Rightarrow> int \<Rightarrow> int \<Rightarrow> int \<times> int \<Rightarrow> ('g TMaze, unit) prog" where
  "place_decoys G W H target =
     bind (gets (\<lambda>e. num_episodes e > path_episode_threshold e)) (\<lambda>past.
     if past then put_obj grey_box (fst target) (snd target)
     else for_each (box_locations W H) (maybe_place G))"

definition gen_obs :: "'g generator \<Rightarrow> ('g TMaze, obs) prog" where
  "gen_obs G =
     bind (gets width) (\<lambda>W.
     bind (gets height) (\<lambda>H.
     seq (for_each (box_locations W H) clear_box)
    (bind (gets goal_position) (\<lambda>gp.
     bind (gets agent_pos) (\<lambda>pos.
     seq (place_decoys G W H (decoy_target W H gp pos))
    (bind (draw (rng_uniform G (- 1) 1 action_space_n)) (\<lambda>noise.
     bind (gets arrow_q_values) (\<lambda>q.
     bind (gets agent_dir) (\<lambda>d.
     let maybe_random_arrow = (if fst pos = (H - 1) div 2 \<and> snd pos = 1 then q else noise)
     in ret \<lparr> direction = d, mission = ''get to the green goal square'',
              position = pos, arrow = maybe_random_arrow \<rparr>)))))))))"

subsection \<open>What an observation does, in closed form\<close>

text \<open>
  The functions of this subsection are not code of the environment: they name the grid, the
  generator state and the observation that \<open>gen_obs\<close> is proved to produce (lemma
  \<open>gen_obs_run\<close> below), so that the theorems can speak about them.
\<close>

definition put_cell :: "Grid \<Rightarrow> int \<times> int \<Rightarrow> world_obj option \<Rightarrow> Grid" where
  "put_cell g p v = g\<lparr> cells := (cells g)(p := v) \<rparr>"

definition all_inside :: "Grid \<Rightarrow> (int \<times> int) list \<Rightarrow> bool" where
  "all_inside g ps \<longleftrightarrow> list_all (\<lambda>p. inside g (fst p) (snd p)) ps"

definition boxes_inside :: "'g TMaze \<Rightarrow> bool" where
  "boxes_inside e \<longleftrightarrow> all_inside (grid e) (box_locations (width e) (height e))"

text \<open>The four cells emptied.\<close>

definition cleared :: "'g TMaze \<Rightarrow> Grid" where
  "cleared e = fold (\<lambda>p g. put_cell g p None) (box_locations (width e) (height e)) (grid e)"

text \<open>One draw per cell, in the order of the list; the decoy goes in when the draw is below 0.5.\<close>

fun random_decoys :: "'g generator \<Rightarrow> (int \<times> int) list \<Rightarrow> Grid \<times> 'g \<Rightarrow> Grid \<times> 'g" where
  "random_decoys G [] s = s"
| "random_decoys G (p # ps) s =
     random_decoys G ps
       (if fst (rng_random G (snd s)) < 0.5 then put_cell (fst s) p (Some grey_box) else fst s,
        snd (rng_random G (snd s)))"

definition past_threshold :: "'g TMaze \<Rightarrow> bool" where
  "past_threshold e \<longleftrightarrow> num_episodes e > path_episode_threshold e"

definition decoys_placed :: "'g generator \<Rightarrow> 'g TMaze \<Rightarrow> Grid \<times> 'g" where
  "decoys_placed G e =
     (if past_threshold e
      then (put_cell (cleared e)
              (decoy_target (width e) (height e) (goal_position e) (agent_pos e))
              (Some grey_box), np_random e)
      else random_decoys G (box_locations (width e) (height e)) (cleared e, np_random e))"

definition noise_drawn :: "'g generator \<Rightarrow> 'g TMaze \<Rightarrow> real list \<times> 'g" where
  "noise_drawn G e = rng_uniform G (- 1) 1 action_space_n (snd (decoys_placed G e))"

definition at_decision_cell :: "'g TMaze \<Rightarrow> bool" where
  "at_decision_cell e \<longleftrightarrow>
     fst (agent_pos e) = (height e - 1) div 2 \<and> snd (agent_pos e) = 1"

definition obs_of :: "'g generator \<Rightarrow> 'g TMaze \<Rightarrow> obs" where
  "obs_of G e =
     \<lparr> direction = agent_dir e, mission = ''get to the green goal square'',
       position = agent_pos e,
       arrow = (if at_decision_cell e then arrow_q_values e else fst (noise_drawn G e)) \<rparr>"

definition after_obs :: "'g generator \<Rightarrow> 'g TMaze \<Rightarrow> 'g TMaze" where
  "after_obs G e =
     e\<lparr> grid := fst (decoys_placed G e), np_random := snd (noise_drawn G e) \<rparr>"

subsection \<open>Reset (TMaze.reset, main_dqn.py lines 418 to 420)\<close>

text \<open>
  \<^verbatim>\<open>TMaze.reset\<close> adds one to \<^verbatim>\<open>num_episodes\<close> and calls the base class. The reset
  of the base classes (gymnasium and minigrid) is embedded as those packages define it: a
  given seed replaces the generator; the pose is cleared; \<^verbatim>\<open>_gen_grid(width, height)\<close>
  runs; the pose must have been set and the start cell must be free or overlappable;
  \<^verbatim>\<open>step_count\<close> becomes 0; the first observation is \<^verbatim>\<open>gen_obs()\<close>.
\<close>

definition reset :: "'g generator \<Rightarrow> int option \<Rightarrow> ('g TMaze, obs) prog" where
  "reset G seed =
     seq (block
       [modify (\<lambda>e. e\<lparr> num_episodes := num_episodes e + 1 \<rparr>),
        (case seed of None \<Rightarrow> ret () | Some s \<Rightarrow> modify (\<lambda>e. e\<lparr> np_random := rng_seed G s \<rparr>)),
        modify (\<lambda>e. e\<lparr> agent_pos := (- 1, - 1) \<rparr>),
        modify (\<lambda>e. e\<lparr> agent_dir := - 1 \<rparr>),
        bind (gets width) (\<lambda>w. bind (gets height) (\<lambda>h. gen_grid G w h)),
        bind (gets agent_pos) (\<lambda>p. bind (gets agent_dir) (\<lambda>d.
          assert_that (0 \<le> fst p \<and> 0 \<le> snd p \<and> 0 \<le> d))),
        bind (gets agent_pos) (\<lambda>p. bind (on_grid (grid_get (fst p) (snd p))) (\<lambda>start_cell.
          assert_that (case start_cell of None \<Rightarrow> True | Some ob \<Rightarrow> can_overlap ob))),
        modify (\<lambda>e. e\<lparr> step_count := 0 \<rparr>)])
       (gen_obs G)"

subsection \<open>Step (TMaze.step, main_dqn.py lines 617 to 689)\<close>

text \<open>
  \<^verbatim>\<open>class Actions(IntEnum)\<close> of main_dqn.py, lines 288 to 292, which
  \<^verbatim>\<open>__init__\<close> stores in \<^verbatim>\<open>self.actions\<close>. Reading a member the enumeration does
  not have raises \<^verbatim>\<open>AttributeError\<close>.
\<close>

definition Actions :: "(string \<times> int) list" where
  "Actions = [(''left'', 0), (''forward'', 1), (''right'', 2), (''backward'', 3)]"

definition actions_member :: "string \<Rightarrow> ('s, int) prog" where
  "actions_member name =
     (case map_of Actions name of None \<Rightarrow> raise AttributeError | Some v \<Rightarrow> ret v)"

text \<open>
  \<^verbatim>\<open>_reward()\<close> of the base class: \<^verbatim>\<open>1 - 0.9 * (self.step_count / self.max_steps)\<close>.
\<close>

definition reward_fn :: "('g TMaze, real) prog" where
  "reward_fn =
     bind (gets step_count) (\<lambda>sc.
     bind (gets max_steps) (\<lambda>ms.
     if ms = 0 then raise ZeroDivisionError
     else ret (1 - 0.9 * (real_of_int sc / real_of_int ms))))"

text \<open>
  The four movement branches differ in the target cell only. From \<^verbatim>\<open>reward = 0\<close> and
  \<^verbatim>\<open>terminated = False\<close>, the branch returns the two variables as it leaves them.
\<close>

definition move_to :: "int \<times> int \<Rightarrow> ('g TMaze, real \<times> bool) prog" where
  "move_to fwd_pos =
     bind (on_grid (grid_get (fst fwd_pos) (snd fwd_pos))) (\<lambda>fwd_cell.
     seq (case fwd_cell of
            None \<Rightarrow> modify (\<lambda>e. e\<lparr> agent_pos := fwd_pos \<rparr>)
          | Some ob \<Rightarrow> if can_overlap ob then modify (\<lambda>e. e\<lparr> agent_pos := fwd_pos \<rparr>)
                       else ret ())
    (bind (case fwd_cell of
             None \<Rightarrow> ret (0, False)
           | Some ob \<Rightarrow> if obj_type ob = ''goal''
                        then bind reward_fn (\<lambda>r. ret (r, True))
                        else ret (0, False)) (\<lambda>rt.
     case fwd_cell of
       None \<Rightarrow> ret rt
     | Some ob \<Rightarrow> if obj_type ob = ''lava'' then ret (fst rt, True) else ret rt)))"

definition step :: "'g generator \<Rightarrow> int \<Rightarrow> ('g TMaze, obs \<times> real \<times> bool \<times> bool) prog" where
  "step G action =
     seq (modify (\<lambda>e. e\<lparr> step_count := step_count e + 1 \<rparr>))
    (bind (gets agent_pos) (\<lambda>pos.
     bind
       (bind (actions_member ''left'') (\<lambda>a_left.
        if action = a_left then move_to (fst pos - 1, snd pos) else
        bind (actions_member ''right'') (\<lambda>a_right.
        if action = a_right then move_to (fst pos + 1, snd pos) else
        bind (actions_member ''forward'') (\<lambda>a_forward.
        if action = a_forward then move_to (fst pos, snd pos - 1) else
        bind (actions_member ''backward'') (\<lambda>a_backward.
        if action = a_backward then move_to (fst pos, snd pos + 1) else
        bind (actions_member ''done'') (\<lambda>a_done.
        if action = a_done then ret (0, False) else raise ValueError))))))
       (\<lambda>rt.
     bind (gets (\<lambda>e. step_count e \<ge> max_steps e)) (\<lambda>truncated.
     bind (gen_obs G) (\<lambda>ob.
     ret (ob, fst rt, snd rt, truncated))))))"

subsection \<open>A small generator for concrete runs\<close>

text \<open>
  A counter: every draw is a function of the counter, which then advances by the number of
  values drawn. It meets the contract above.
\<close>

definition toy_generator :: "nat generator" where
  "toy_generator =
     \<lparr> rng_seed = (\<lambda>s. nat \<bar>s\<bar>),
       rng_integers = (\<lambda>h n. (int n mod h, n + 1)),
       rng_random = (\<lambda>n. (real (n mod 5) / 5, n + 1)),
       rng_uniform = (\<lambda>lo hi k n.
          (map (\<lambda>i. lo + (hi - lo) * (real ((n + i) mod 8) / 8)) [0..<k], n + k)) \<rparr>"

subsection \<open>Training loop: compute penalty (main.py, lines 524 to 528)\<close>

text \<open>
  \<^verbatim>\<open>penalty = (1 - agent._last_gate.float()) * args.compute_penalty\<close>,
  \<^verbatim>\<open>reward -= penalty\<close>, \<^verbatim>\<open>rewards[step] = reward\<close>.
  The class of \<^verbatim>\<open>agent\<close> lives in \<^verbatim>\<open>networks.py\<close>, which is not among the
  embedded sources. The number that \<^verbatim>\<open>agent._last_gate.float()\<close> yields is therefore
  a parameter, \<open>last_gate\<close>; nothing is assumed of it here.
\<close>

definition stored_reward :: "real \<Rightarrow> real \<Rightarrow> real \<Rightarrow> real" where
  "stored_reward reward last_gate compute_penalty =
     (let penalty = (1 - last_gate) * compute_penalty
      in reward - penalty)"

subsection \<open>Training loop: backward advantage pass (main.py, lines 545 to 563)\<close>

text \<open>
  One environment (\<^verbatim>\<open>num_envs = 1\<close>), so each buffer of shape
  \<^verbatim>\<open>(num_steps, num_envs)\<close> is a list of \<^verbatim>\<open>num_steps\<close> numbers. The flags in
  \<^verbatim>\<open>dones\<close> and \<^verbatim>\<open>next_done\<close> are the floats 0.0 and 1.0 the loop stores.
\<close>

record rollout =
  num_steps :: nat
  rewards :: "real list"
  values_buf :: "real list"
  dones :: "real list"
  next_value :: real
  next_done :: real
  gamma :: real
  gae_lambda :: real

text \<open>The body of the loop at index \<open>t\<close>, on the pair (advantages, lastgaelam).\<close>

definition gae_body :: "rollout \<Rightarrow> nat \<Rightarrow> real list \<times> real \<Rightarrow> real list \<times> real" where
  "gae_body r t st =
     (let advantages = fst st;
          lastgaelam = snd st;
          nextnonterminal =
            (if t = num_steps r - 1 then 1 - next_done r else 1 - dones r ! (t + 1));
          nextvalues =
            (if t = num_steps r - 1 then next_value r else values_buf r ! (t + 1));
          delta = rewards r ! t + gamma r * nextvalues * nextnonterminal - values_buf r ! t;
          lastgaelam' = delta + gamma r * gae_lambda r * nextnonterminal * lastgaelam
      in (advantages[t := lastgaelam'], lastgaelam'))"

text \<open>\<^verbatim>\<open>for t in reversed(range(args.num_steps))\<close>, from zeroed advantages and 0.\<close>

definition gae_loop :: "rollout \<Rightarrow> real list \<times> real" where
  "gae_loop r = fold (gae_body r) (rev [0..<num_steps r]) (replicate (num_steps r) 0, 0)"

definition advantages :: "rollout \<Rightarrow> real list" where
  "advantages r = fst (gae_loop r)"

text \<open>\<^verbatim>\<open>returns = advantages + values\<close>, elementwise.\<close>

definition returns :: "rollout \<Rightarrow> real list" where
  "returns r = map2 (+) (advantages r) (values_buf r)"

text \<open>The quantities of the recurrence, written as the specification names them.\<close>

definition nextnonterminal_at :: "rollout \<Rightarrow> nat \<Rightarrow> real" where
  "nextnonterminal_at r t =
     1 - (if t = num_steps r - 1 then next_done r else dones r ! (t + 1))"

definition nextvalue_at :: "rollout \<Rightarrow> nat \<Rightarrow> real" where
  "nextvalue_at r t = (if t = num_steps r - 1 then next_value r else values_buf r ! (t + 1))"

definition delta_at :: "rollout \<Rightarrow> nat \<Rightarrow> real" where
  "delta_at r t =
     rewards r ! t + gamma r * nextvalue_at r t * nextnonterminal_at r t - values_buf r ! t"

text \<open>\<open>advantage[T] = 0\<close>: the value read one past the last index.\<close>

definition advantage_at :: "rollout \<Rightarrow> nat \<Rightarrow> real" where
  "advantage_at r t = (if t < num_steps r then advantages r ! t else 0)"

text \<open>The buffers have the shape the training loop allocates.\<close>

definition well_shaped :: "rollout \<Rightarrow> bool" where
  "well_shaped r \<longleftrightarrow>
     length (rewards r) = num_steps r \<and> length (values_buf r) = num_steps r \<and>
     length (dones r) = num_steps r"

text \<open>The loop stopped after the indices \<open>num_steps - 1\<close> down to \<open>k\<close>.\<close>

definition gae_from :: "rollout \<Rightarrow> nat \<Rightarrow> real list \<times> real" where
  "gae_from r k = fold (gae_body r) (rev [k..<num_steps r]) (replicate (num_steps r) 0, 0)"

text \<open>What holds of the loop's state once index \<open>k\<close> has been written.\<close>

definition gae_inv :: "rollout \<Rightarrow> nat \<Rightarrow> bool" where
  "gae_inv r k \<longleftrightarrow>
     length (fst (gae_from r k)) = num_steps r \<and>
     snd (gae_from r k) = (if k < num_steps r then fst (gae_from r k) ! k else 0) \<and>
     (\<forall>t. k \<le> t \<and> t < num_steps r \<longrightarrow>
        fst (gae_from r k) ! t =
          delta_at r t + gamma r * gae_lambda r * nextnonterminal_at r t *
            (if t + 1 < num_steps r then fst (gae_from r k) ! (t + 1) else 0))"

text \<open>A three-step rollout that ends on a terminal step.\<close>

definition demo_rollout :: rollout where
  "demo_rollout = \<lparr> num_steps = 3, rewards = [0, 0, 1], values_buf = [1/2, 1/4, 1/8],
      dones = [0, 0, 0], next_value = 2, next_done = 1, gamma = 1/2, gae_lambda = 1/2 \<rparr>"

definition fwd_pos_of :: "int \<Rightarrow> int \<times> int \<Rightarrow> int \<times> int" where
  "fwd_pos_of action pos =
     (if action = 0 then (fst pos - 1, snd pos)
      else if action = 2 then (fst pos + 1, snd pos)
      else if action = 1 then (fst pos, snd pos - 1)
      else (fst pos, snd pos + 1))"

definition after_move :: "'g TMaze \<Rightarrow> int \<times> int \<Rightarrow> 'g TMaze" where
  "after_move e p =
     (case cells (grid e) p of
        None \<Rightarrow> e\<lparr> agent_pos := p \<rparr>
      | Some ob \<Rightarrow> if can_overlap ob then e\<lparr> agent_pos := p \<rparr> else e)"

definition move_result :: "'g TMaze \<Rightarrow> int \<times> int \<Rightarrow> real \<times> bool" where
  "move_result e p =
     (case cells (grid e) p of
        None \<Rightarrow> (0, False)
      | Some ob \<Rightarrow>
          (if obj_type ob = ''goal''
           then 1 - 0.9 * (real_of_int (step_count e) / real_of_int (max_steps e)) else 0,
           obj_type ob = ''goal'' \<or> obj_type ob = ''lava''))"

definition counted :: "'g TMaze \<Rightarrow> 'g TMaze" where
  "counted e = e\<lparr> step_count := step_count e + 1 \<rparr>"

definition reward_defined :: "'g TMaze \<Rightarrow> int \<times> int \<Rightarrow> bool" where
  "reward_defined e p \<longleftrightarrow>
     (case cells (grid e) p of
        None \<Rightarrow> True
      | Some ob \<Rightarrow> obj_type ob = ''goal'' \<longrightarrow> max_steps e \<noteq> 0)"

definition paint_h :: "int \<Rightarrow> int \<Rightarrow> int \<Rightarrow> Grid \<Rightarrow> Grid" where
  "paint_h x y len g =
     g\<lparr> cells := (\<lambda>p. if snd p = y \<and> x \<le> fst p \<and> fst p < x + len then Some Wall
                         else cells g p) \<rparr>"

definition paint_v :: "int \<Rightarrow> int \<Rightarrow> int \<Rightarrow> Grid \<Rightarrow> Grid" where
  "paint_v x y len g =
     g\<lparr> cells := (\<lambda>p. if fst p = x \<and> y \<le> snd p \<and> snd p < y + len then Some Wall
                         else cells g p) \<rparr>"

definition fits_h :: "Grid \<Rightarrow> int \<Rightarrow> int \<Rightarrow> int \<Rightarrow> bool" where
  "fits_h g x y len \<longleftrightarrow>
     len \<le> 0 \<or> (0 \<le> x \<and> x + len \<le> gwidth g \<and> 0 \<le> y \<and> y < gheight g)"

definition fits_v :: "Grid \<Rightarrow> int \<Rightarrow> int \<Rightarrow> int \<Rightarrow> bool" where
  "fits_v g x y len \<longleftrightarrow>
     len \<le> 0 \<or> (0 \<le> y \<and> y + len \<le> gheight g \<and> 0 \<le> x \<and> x < gwidth g)"

text \<open>The empty grid and the walls of the T, as \<open>_gen_grid\<close> draws them one after the other.\<close>

definition empty_grid :: "int \<Rightarrow> int \<Rightarrow> Grid" where
  "empty_grid w h = \<lparr> gwidth = w, gheight = h, cells = (\<lambda>p. None) \<rparr>"

definition maze_walls :: "int \<Rightarrow> int \<Rightarrow> Grid" where
  "maze_walls w h =
     paint_h (w div 2 + 1) 2 (w div 2)
    (paint_h 0 2 (w div 2)
    (paint_h 0 0 w
    (paint_v (w div 2 + 1) 2 (h - 3)
    (paint_v (w div 2 - 1) 2 (h - 3)
    (paint_v (w - 1) 0 h
    (paint_v 0 0 h
    (paint_h 0 (h - 1) w
    (paint_h 0 0 w (empty_grid w h)))))))))"

text \<open>The state \<open>_gen_grid\<close> leaves, given the state it starts from.\<close>

definition generated :: "'g generator \<Rightarrow> int \<Rightarrow> int \<Rightarrow> 'g TMaze \<Rightarrow> 'g TMaze" where
  "generated G w h e =
     (let goal_choice = fst (rng_integers G 2 (np_random e));
          gp = (if goal_choice = 0 then (1, 1) else (w - 2, 1));
          lp = (if goal_choice = 0 then (w - 2, 1) else (1, 1))
      in e\<lparr> grid := put_cell (put_cell (maze_walls w h) gp (Some (Goal Green))) lp (Some Lava),
            agent_pos := (w div 2, h - 2),
            agent_dir := 3,
            goal_position := Some gp,
            lava_position := Some lp,
            arrow_q_values := (replicate action_space_n 0)[(if gp = (w - 2, 1) then 1 else 0) := 1],
            np_random := snd (rng_integers G 2 (np_random e)) \<rparr>)"

text \<open>The state in which \<open>reset\<close> calls \<open>gen_obs\<close>, given the state it starts from.\<close>

definition reseeded :: "'g generator \<Rightarrow> int option \<Rightarrow> 'g TMaze \<Rightarrow> 'g TMaze" where
  "reseeded G seed e = (case seed of None \<Rightarrow> e | Some s \<Rightarrow> e\<lparr> np_random := rng_seed G s \<rparr>)"

definition before_first_obs :: "'g generator \<Rightarrow> int option \<Rightarrow> 'g TMaze \<Rightarrow> 'g TMaze" where
  "before_first_obs G seed e =
     (generated G (width e) (height e)
        ((reseeded G seed (e\<lparr> num_episodes := num_episodes e + 1 \<rparr>))
           \<lparr> agent_pos := (- 1, - 1), agent_dir := - 1 \<rparr>))
     \<lparr> step_count := 0 \<rparr>"

text \<open>Odd sizes on which the four decoy cells lie inside the grid.\<close>

definition valid_size :: "'g TMaze \<Rightarrow> bool" where
  "valid_size e \<longleftrightarrow>
     width e mod 2 = 1 \<and> height e mod 2 = 1 \<and> 5 \<le> width e \<and> 3 \<le> height e"

definition fresh11 :: "nat TMaze" where
  "fresh11 = projr (TMaze_init 11 None 0)"

definition start11 :: "nat TMaze" where
  "start11 = snd (reset toy_generator (Some 1) fresh11)"


definition last_step11 :: "nat TMaze" where
  "last_step11 = start11\<lparr> agent_pos := (8, 1), step_count := 241 \<rparr>"

text \<open>The generator state after \<open>i\<close> calls of \<^verbatim>\<open>random()\<close>, and the value of the next call.\<close>

fun gen_after :: "'g generator \<Rightarrow> nat \<Rightarrow> 'g \<Rightarrow> 'g" where
  "gen_after G 0 g = g"
| "gen_after G (Suc i) g = gen_after G i (snd (rng_random G g))"

definition nth_draw :: "'g generator \<Rightarrow> 'g TMaze \<Rightarrow> nat \<Rightarrow> real" where
  "nth_draw G e i = fst (rng_random G (gen_after G i (np_random e)))"

text \<open>An environment that has completed 2000 episodes.\<close>

definition veteran11 :: "nat TMaze" where
  "veteran11 = fresh11\<lparr> num_episodes := 2000 \<rparr>"

text \<open>The state after the first reset of the environment that has completed 2000 episodes.\<close>

definition late11 :: "nat TMaze" where
  "late11 = snd (reset toy_generator (Some 1) veteran11)"

text \<open>
  The environment of the constructor's default size 9, its state after a first reset, and
  that episode with the agent two cells up the corridor on its last step.
\<close>

definition fresh9 :: "nat TMaze" where
  "fresh9 = projr (TMaze_init 9 None 0)"

definition start9 :: "nat TMaze" where
  "start9 = snd (reset toy_generator (Some 1) fresh9)"


text \<open>The state after a sequence of calls of \<open>step\<close>, whatever each call returned or raised.\<close>

fun steps :: "'g generator \<Rightarrow> int list \<Rightarrow> 'g TMaze \<Rightarrow> 'g TMaze" where
  "steps G [] e = e"
| "steps G (a # as) e = steps G as (snd (step G a e))"

text \<open>
  \<^verbatim>\<open>main.py\<close> has a \<^verbatim>\<open>TMaze\<close> of its own. Its \<^verbatim>\<open>_gen_grid\<close> (lines 207 to 209)
  stores \<^verbatim>\<open>goal_position = self.np_random.choice(goal_positions)\<close>, a numpy array holding
  the two coordinates of the chosen corner, and
  \<^verbatim>\<open>arrow_position = self.goal_position == (width - 2, 1)\<close>, which numpy evaluates element
  by element: an array of two truth values. Its \<^verbatim>\<open>gen_obs\<close> (lines 288 to 297) draws
  \<^verbatim>\<open>np.random.randint(0, 1)\<close>, replaces the draw by \<^verbatim>\<open>arrow_position\<close> at the decision
  cell, and returns \<^verbatim>\<open>float(maybe_random_arrow)\<close> as the hint.
\<close>

datatype py_value = Scalar int | BoolArray "bool list"

text \<open>
  \<^verbatim>\<open>float(x)\<close>: the number itself for an integer; an array converts only when it has
  exactly one element, and raises \<^verbatim>\<open>TypeError\<close> otherwise.
\<close>

definition py_float :: "py_value \<Rightarrow> error + real" where
  "py_float v =
     (case v of
        Scalar n \<Rightarrow> Inr (real_of_int n)
      | BoolArray bs \<Rightarrow>
          (case bs of [b] \<Rightarrow> Inr (if b then 1 else 0) | _ \<Rightarrow> Inl TypeError))"

text \<open>The attributes of this class that the hint reads.\<close>

record TMaze_ppo =
  ppo_width :: int
  ppo_height :: int
  ppo_agent_pos :: "int \<times> int"
  ppo_goal_position :: "int \<times> int"
  ppo_arrow_position :: "bool list"

text \<open>\<^verbatim>\<open>array == tuple\<close> on two coordinates.\<close>

definition array_eq_tuple :: "int \<times> int \<Rightarrow> int \<times> int \<Rightarrow> bool list" where
  "array_eq_tuple a t = [fst a = fst t, snd a = snd t]"

text \<open>
  Lines 207 to 209, with the corner that \<^verbatim>\<open>choice\<close> returned as the argument
  \<open>chosen\<close>.
\<close>

definition ppo_place_goal :: "int \<times> int \<Rightarrow> TMaze_ppo \<Rightarrow> TMaze_ppo" where
  "ppo_place_goal chosen e =
     e\<lparr> ppo_goal_position := chosen,
        ppo_arrow_position := array_eq_tuple chosen (ppo_width e - 2, 1) \<rparr>"

text \<open>
  Lines 288 to 297, with the value that \<^verbatim>\<open>np.random.randint(0, 1)\<close> returned as the
  argument \<open>drawn\<close>; numpy draws it from \<open>[0, 1)\<close>.
\<close>

definition ppo_at_decision_cell :: "TMaze_ppo \<Rightarrow> bool" where
  "ppo_at_decision_cell e \<longleftrightarrow>
     fst (ppo_agent_pos e) = (ppo_height e - 1) div 2 \<and> snd (ppo_agent_pos e) = 1"

definition ppo_arrow :: "int \<Rightarrow> TMaze_ppo \<Rightarrow> error + real" where
  "ppo_arrow drawn e =
     (let maybe_random_arrow =
            (if fst (ppo_agent_pos e) = (ppo_height e - 1) div 2 \<and> snd (ppo_agent_pos e) = 1
             then BoolArray (ppo_arrow_position e) else Scalar drawn)
      in py_float maybe_random_arrow)"

text \<open>The size-9 environment of main.py with the goal in the left corner.\<close>

definition ppo9 :: "int \<times> int \<Rightarrow> TMaze_ppo" where
  "ppo9 pos = ppo_place_goal (1, 1)
     \<lparr> ppo_width = 9, ppo_height = 9, ppo_agent_pos = pos, ppo_goal_position = (0, 0),
       ppo_arrow_position = [] \<rparr>"

text \<open>
  The encoding of the goal side that \<^verbatim>\<open>_gen_grid\<close> of main_dqn.py writes to
  \<^verbatim>\<open>arrow_q_values\<close> (lines 453 to 456): zeros with a one at index 1 when the goal is in
  the right corner and at index 0 otherwise.
\<close>

definition goal_side_encoding :: "'g TMaze \<Rightarrow> real list" where
  "goal_side_encoding e =
     (replicate action_space_n 0)[(if goal_position e = Some (width e - 2, 1) then 1 else 0) := 1]"

definition hint_consistent :: "'g TMaze \<Rightarrow> bool" where
  "hint_consistent e \<longleftrightarrow> arrow_q_values e = goal_side_encoding e"

text \<open>
  The value of the \<^verbatim>\<open>integers(2)\<close> draw of a reset: it is taken from the generator the
  reset starts with, or from the freshly seeded one when a seed is given.
\<close>

definition goal_choice_of :: "'g generator \<Rightarrow> int option \<Rightarrow> 'g TMaze \<Rightarrow> int" where
  "goal_choice_of G seed e = fst (rng_integers G 2 (np_random (reseeded G seed e)))"

text \<open>
  The same assertion, grid and six wall calls as in main_dqn.py; then
  \<^verbatim>\<open>put_obj(Goal(), *self.goal_position)\<close> and nothing else: this file places no Lava. The
  corner that \<^verbatim>\<open>self.np_random.choice(goal_positions)\<close> returned is the argument
  \<open>chosen\<close>.
\<close>

definition ppo_gen_grid :: "int \<times> int \<Rightarrow> int \<Rightarrow> int \<Rightarrow> error + Grid" where
  "ppo_gen_grid chosen w h =
     (if \<not> (w mod 2 = 1 \<and> h mod 2 = 1) then Inl AssertionError
      else case Grid_init w h of
        Inl err \<Rightarrow> Inl err
      | Inr g0 \<Rightarrow>
          (case block
             [wall_rect 0 0 w h,
              vert_wall (w div 2 - 1) 2 (h - 3),
              vert_wall (w div 2 + 1) 2 (h - 3),
              horz_wall 0 0 w,
              horz_wall 0 2 (w div 2),
              horz_wall (w div 2 + 1) 2 (w div 2),
              grid_set (fst chosen) (snd chosen) (Some (Goal Green))] g0 of
             (Inl err, g) \<Rightarrow> Inl err
           | (Inr u, g) \<Rightarrow> Inr g))"

text \<open>The environment of main_dqn.py at size 5, before its first reset.\<close>

definition fresh5 :: "nat TMaze" where
  "fresh5 = projr (TMaze_init 5 None 0)"

text \<open>
  The size-11 environment after 1999 completed episodes, and two consecutive resets of it
  with the same seed.
\<close>

definition almost11 :: "nat TMaze" where
  "almost11 = fresh11\<lparr> num_episodes := 1999 \<rparr>"

definition first_reset :: "(error + obs) \<times> nat TMaze" where
  "first_reset = reset toy_generator (Some 1) almost11"

definition second_reset :: "(error + obs) \<times> nat TMaze" where
  "second_reset = reset toy_generator (Some 1) (snd first_reset)"

section \<open>Theorems\<close>

subsection \<open>Compute penalty\<close>

text \<open>
  How the actor-critic encodes its report in \<^verbatim>\<open>_last_gate\<close> is decided in
  \<^verbatim>\<open>networks.py\<close>. The comment above the penalty line reads "If the heavy branch was
  used add the compute penalty". The encoding under which the line does so is a hypothesis
  of the theorem: the gate is 0.0 on a step that took the heavy branch and 1.0 on a step
  that did not. Under the opposite encoding the line penalises the other steps.
\<close>

lemma stored_reward_opposite_gate:
  assumes "c \<noteq> 0"
  shows "stored_reward reward (if heavy then 1 else 0) c \<noteq> (if heavy then reward - c else reward)"
  using assms by (simp add: stored_reward_def)



subsection \<open>Backward advantage pass\<close>

lemma gae_from_top: "gae_from r (num_steps r) = (replicate (num_steps r) 0, 0)"
  by (simp add: gae_from_def)

lemma gae_from_step: "k < num_steps r \<Longrightarrow> gae_from r k = gae_body r k (gae_from r (Suc k))"
  by (simp add: gae_from_def upt_conv_Cons)

lemma gae_from_zero: "gae_loop r = gae_from r 0"
  by (simp add: gae_loop_def gae_from_def)

lemma gae_inv_top: "gae_inv r (num_steps r)"
  by (simp add: gae_inv_def gae_from_top)

lemma gae_inv_step:
  assumes k: "k < num_steps r" and inv: "gae_inv r (Suc k)"
  shows "gae_inv r k"
proof -
  let ?T = "num_steps r"
  let ?old = "fst (gae_from r (Suc k))"
  let ?lg = "delta_at r k + gamma r * gae_lambda r * nextnonterminal_at r k * snd (gae_from r (Suc k))"
  have len: "length ?old = ?T" using inv by (simp add: gae_inv_def)
  have new: "gae_from r k = (?old[k := ?lg], ?lg)"
    using k by (simp add: gae_from_step gae_body_def Let_def delta_at_def
        nextnonterminal_at_def nextvalue_at_def)
  have last: "snd (gae_from r (Suc k)) = (if k + 1 < ?T then ?old ! (k + 1) else 0)"
    using inv by (simp add: gae_inv_def)
  have at_k: "fst (gae_from r k) ! k = ?lg" using k len by (simp add: new)
  have above: "fst (gae_from r k) ! t = ?old ! t" if "k < t" for t
    using that by (simp add: new)
  show ?thesis
    unfolding gae_inv_def
  proof (intro conjI allI impI)
    show "length (fst (gae_from r k)) = ?T" using len by (simp add: new)
    show "snd (gae_from r k) = (if k < ?T then fst (gae_from r k) ! k else 0)"
      using k at_k by (simp add: new)
  next
    fix t assume t: "k \<le> t \<and> t < ?T"
    show "fst (gae_from r k) ! t =
          delta_at r t + gamma r * gae_lambda r * nextnonterminal_at r t *
            (if t + 1 < ?T then fst (gae_from r k) ! (t + 1) else 0)"
    proof (cases "t = k")
      case True
      then show ?thesis using at_k last above [of "k + 1"] by simp
    next
      case False
      with t have kt: "Suc k \<le> t" "k < t" "k < t + 1" by simp_all
      have "?old ! t = delta_at r t + gamma r * gae_lambda r * nextnonterminal_at r t *
            (if t + 1 < ?T then ?old ! (t + 1) else 0)"
        using inv kt(1) t by (simp add: gae_inv_def)
      then show ?thesis using above [OF kt(2)] above [OF kt(3)] by simp
    qed
  qed
qed

lemma gae_inv_all: "k \<le> num_steps r \<Longrightarrow> gae_inv r k"
  by (induction rule: inc_induct) (auto intro: gae_inv_top gae_inv_step)

text \<open>
  Claim C4. For a rollout of length \<open>T\<close> whose buffers have \<open>T\<close> entries, the backward
  loop leaves in \<open>advantages\<close>, for every \<open>t < T\<close>, the value
  \<open>delta[t] + gamma * lambda * nextnonterminal[t] * advantage[t+1]\<close> with
  \<open>advantage[T] = 0\<close>, where
  \<open>delta[t] = reward[t] + gamma * nextvalue[t] * nextnonterminal[t] - value[t]\<close>, the next
  value at \<open>T - 1\<close> is the bootstrap value and the next done flag at \<open>T - 1\<close> is the final
  done flag; and \<open>return[t] = advantage[t] + value[t]\<close>.
\<close>

theorem gae_recurrence:
  assumes shape: "well_shaped r" and t: "t < num_steps r"
  shows "advantage_at r t =
           delta_at r t + gamma r * gae_lambda r * nextnonterminal_at r t * advantage_at r (t + 1)
         \<and> advantage_at r (num_steps r) = 0
         \<and> returns r ! t = advantage_at r t + values_buf r ! t"
proof -
  have inv: "gae_inv r 0" by (rule gae_inv_all) simp
  have adv: "advantages r = fst (gae_from r 0)"
    by (simp add: advantages_def gae_from_zero)
  have len: "length (advantages r) = num_steps r"
    using inv by (simp add: adv gae_inv_def)
  have rec: "advantages r ! t = delta_at r t + gamma r * gae_lambda r * nextnonterminal_at r t *
            (if t + 1 < num_steps r then advantages r ! (t + 1) else 0)"
    using inv t by (simp add: adv gae_inv_def)
  have ret: "returns r ! t = advantages r ! t + values_buf r ! t"
    using shape t len by (simp add: returns_def well_shaped_def)
  show ?thesis using rec ret t by (simp add: advantage_at_def)
qed

theorem gae_recurrence_witness:
  "well_shaped demo_rollout \<and> (1::nat) < num_steps demo_rollout
   \<and> advantage_at demo_rollout 1 =
         delta_at demo_rollout 1 + gamma demo_rollout * gae_lambda demo_rollout *
           nextnonterminal_at demo_rollout 1 * advantage_at demo_rollout (1 + 1)
   \<and> advantage_at demo_rollout (num_steps demo_rollout) = 0
   \<and> returns demo_rollout ! 1 = advantage_at demo_rollout 1 + values_buf demo_rollout ! 1
   \<and> delta_at demo_rollout 1 = - (3 / 16)
   \<and> nextnonterminal_at demo_rollout 2 = 0"
proof -
  have shape: "well_shaped demo_rollout"
    by (simp add: well_shaped_def demo_rollout_def)
  have t: "(1::nat) < num_steps demo_rollout"
    by (simp add: demo_rollout_def)
  have d: "delta_at demo_rollout 1 = - (3 / 16)"
    by (simp add: delta_at_def nextvalue_at_def nextnonterminal_at_def demo_rollout_def)
  have n: "nextnonterminal_at demo_rollout 2 = 0"
    by (simp add: nextnonterminal_at_def demo_rollout_def)
  show ?thesis
    using gae_recurrence [OF shape t] shape t d n by simp
qed

subsection \<open>Running programs\<close>

lemma bind_apply:
  "bind m f s = (case m s of (Inl e, s') \<Rightarrow> (Inl e, s') | (Inr x, s') \<Rightarrow> f x s')"
  by (simp add: bind_def)

lemma seq_apply:
  "seq m n s = (case m s of (Inl e, s') \<Rightarrow> (Inl e, s') | (Inr x, s') \<Rightarrow> n s')"
  by (simp add: seq_def bind_def)

lemmas run_simps = bind_apply seq_apply ret_def raise_def gets_def modify_def assert_that_def

lemma draw_run:
  "draw d e = (Inr (fst (d (np_random e))), e\<lparr> np_random := snd (d (np_random e)) \<rparr>)"
  by (simp add: draw_def split_beta)

lemma inside_put_cell [simp]: "inside (put_cell g p v) i j = inside g i j"
  by (simp add: inside_def put_cell_def)

lemma all_inside_put_cell [simp]: "all_inside (put_cell g p v) ps = all_inside g ps"
  by (simp add: all_inside_def)

lemma all_inside_Cons [simp]:
  "all_inside g (p # ps) \<longleftrightarrow> inside g (fst p) (snd p) \<and> all_inside g ps"
  by (simp add: all_inside_def)

lemma all_inside_Nil [simp]: "all_inside g []"
  by (simp add: all_inside_def)

lemma all_inside_mem: "all_inside g ps \<Longrightarrow> p \<in> set ps \<Longrightarrow> inside g (fst p) (snd p)"
  by (simp add: all_inside_def list_all_iff)

lemma grid_set_inside:
  "inside g i j \<Longrightarrow> grid_set i j v g = (Inr (), put_cell g (i, j) v)"
  by (simp add: grid_set_def put_cell_def run_simps)

lemma grid_set_outside: "\<not> inside g i j \<Longrightarrow> grid_set i j v g = (Inl AssertionError, g)"
  by (simp add: grid_set_def run_simps)

lemma grid_get_inside: "inside g i j \<Longrightarrow> grid_get i j g = (Inr (cells g (i, j)), g)"
  by (simp add: grid_get_def run_simps)

lemma grid_get_outside: "\<not> inside g i j \<Longrightarrow> grid_get i j g = (Inl AssertionError, g)"
  by (simp add: grid_get_def run_simps)

lemma put_obj_inside:
  "inside (grid e) i j \<Longrightarrow>
   put_obj ob i j e = (Inr (), e\<lparr> grid := put_cell (grid e) (i, j) (Some ob) \<rparr>)"
  by (simp add: put_obj_def on_grid_def grid_set_inside)

subsection \<open>The observation\<close>

lemma clear_loop:
  "all_inside (grid e) ps \<Longrightarrow>
   for_each ps clear_box e =
     (Inr (), e\<lparr> grid := fold (\<lambda>p g. put_cell g p None) ps (grid e) \<rparr>)"
proof (induction ps arbitrary: e)
  case Nil
  then show ?case by (simp add: ret_def)
next
  case (Cons p ps)
  let ?e1 = "e\<lparr> grid := put_cell (grid e) p None \<rparr>"
  have first: "clear_box p e = (Inr (), ?e1)"
    using Cons.prems by (simp add: clear_box_def on_grid_def grid_set_inside)
  have rest: "all_inside (grid ?e1) ps" using Cons.prems by simp
  show ?case
    using Cons.IH [OF rest] first by (simp add: seq_apply)
qed

lemma random_loop:
  "all_inside (grid e) ps \<Longrightarrow>
   for_each ps (maybe_place G) e =
     (Inr (), e\<lparr> grid := fst (random_decoys G ps (grid e, np_random e)),
                 np_random := snd (random_decoys G ps (grid e, np_random e)) \<rparr>)"
proof (induction ps arbitrary: e)
  case Nil
  then show ?case by (simp add: ret_def)
next
  case (Cons p ps)
  let ?r = "fst (rng_random G (np_random e))"
  let ?g = "snd (rng_random G (np_random e))"
  let ?gr = "if ?r < 0.5 then put_cell (grid e) p (Some grey_box) else grid e"
  let ?e1 = "e\<lparr> grid := ?gr, np_random := ?g \<rparr>"
  have ins: "inside (grid e) (fst p) (snd p)" using Cons.prems by simp
  have first: "maybe_place G p e = (Inr (), ?e1)"
    using ins by (simp add: maybe_place_def bind_apply draw_run put_obj_inside ret_def)
  have rest: "all_inside (grid ?e1) ps" using Cons.prems by simp
  show ?case
    using Cons.IH [OF rest] first by (simp add: seq_apply)
qed

lemma inside_fold_clear [simp]:
  "inside (fold (\<lambda>p g. put_cell g p None) ps g) i j = inside g i j"
  by (induction ps arbitrary: g) simp_all

lemma all_inside_fold_clear [simp]:
  "all_inside (fold (\<lambda>p g. put_cell g p None) ps g) qs = all_inside g qs"
  by (simp add: all_inside_def)

lemma decoy_target_in_boxes: "decoy_target W H gp pos \<in> set (box_locations W H)"
  by (simp add: decoy_target_def box_locations_def Let_def)

lemma place_decoys_run:
  assumes "all_inside (grid e) (box_locations W H)"
  shows "place_decoys G W H (decoy_target W H gp pos) e =
     (Inr (), if past_threshold e
              then e\<lparr> grid := put_cell (grid e) (decoy_target W H gp pos) (Some grey_box) \<rparr>
              else e\<lparr> grid := fst (random_decoys G (box_locations W H) (grid e, np_random e)),
                      np_random := snd (random_decoys G (box_locations W H) (grid e, np_random e)) \<rparr>)"
proof -
  have "inside (grid e) (fst (decoy_target W H gp pos)) (snd (decoy_target W H gp pos))"
    using assms decoy_target_in_boxes by (rule all_inside_mem)
  then show ?thesis
    using assms
    by (simp add: place_decoys_def bind_apply gets_def put_obj_inside random_loop
        past_threshold_def)
qed

lemma gen_obs_run:
  assumes "boxes_inside e"
  shows "gen_obs G e = (Inr (obs_of G e), after_obs G e)"
proof -
  let ?W = "width e" and ?H = "height e"
  have ins: "all_inside (grid e) (box_locations ?W ?H)"
    using assms by (simp add: boxes_inside_def)
  have c: "for_each (box_locations ?W ?H) clear_box e = (Inr (), e\<lparr> grid := cleared e \<rparr>)"
    using clear_loop [OF ins] by (simp add: cleared_def)
  have ins1: "all_inside (grid (e\<lparr> grid := cleared e \<rparr>)) (box_locations ?W ?H)"
    using ins by (simp add: cleared_def)
  note d = place_decoys_run [OF ins1, of G]
  show ?thesis
    by (simp add: gen_obs_def run_simps c d draw_run
        obs_of_def after_obs_def noise_drawn_def decoys_placed_def at_decision_cell_def
        past_threshold_def)
qed

lemma step_invalid:
  assumes "action \<notin> {0, 1, 2, 3}"
  shows "step G action e = (Inl AttributeError, counted e)"
  using assms
  by (simp add: step_def actions_member_def Actions_def run_simps counted_def)

lemma step_valid:
  assumes "action \<in> {0, 1, 2, 3}"
  shows "step G action e =
     bind (move_to (fwd_pos_of action (agent_pos e))) (\<lambda>rt.
     bind (gets (\<lambda>e. step_count e \<ge> max_steps e)) (\<lambda>truncated.
     bind (gen_obs G) (\<lambda>ob.
     ret (ob, fst rt, snd rt, truncated)))) (counted e)"
  using assms
  by (auto simp add: step_def actions_member_def Actions_def run_simps counted_def fwd_pos_of_def)

lemma move_to_run:
  assumes "inside (grid e) (fst p) (snd p)" and "reward_defined e p"
  shows "move_to p e = (Inr (move_result e p), after_move e p)"
proof (cases "cells (grid e) p")
  case None
  then show ?thesis
    using assms
    by (simp add: move_to_def on_grid_def grid_get_inside run_simps move_result_def
        after_move_def)
next
  case (Some ob)
  then show ?thesis
    using assms
    by (cases ob)
       (simp_all add: move_to_def on_grid_def grid_get_inside run_simps move_result_def
        after_move_def reward_fn_def reward_defined_def)
qed

lemma move_to_outside:
  assumes "\<not> inside (grid e) (fst p) (snd p)"
  shows "move_to p e = (Inl AssertionError, e)"
  using assms by (simp add: move_to_def on_grid_def grid_get_outside run_simps)

lemma boxes_inside_after_move [simp]: "boxes_inside (after_move e p) = boxes_inside e"
  by (simp add: after_move_def boxes_inside_def split: option.split)

lemma boxes_inside_counted [simp]: "boxes_inside (counted e) = boxes_inside e"
  by (simp add: counted_def boxes_inside_def)

lemma grid_counted [simp]: "grid (counted e) = grid e"
  by (simp add: counted_def)

lemma reward_defined_counted [simp]: "reward_defined (counted e) p = reward_defined e p"
  by (cases "cells (grid e) p") (simp_all add: counted_def reward_defined_def)

lemma step_run:
  assumes a: "action \<in> {0, 1, 2, 3}"
    and ins: "inside (grid e) (fst (fwd_pos_of action (agent_pos e)))
                (snd (fwd_pos_of action (agent_pos e)))"
    and rd: "reward_defined e (fwd_pos_of action (agent_pos e))"
    and bi: "boxes_inside e"
  shows "step G action e =
     (Inr (obs_of G (after_move (counted e) (fwd_pos_of action (agent_pos e))),
           fst (move_result (counted e) (fwd_pos_of action (agent_pos e))),
           snd (move_result (counted e) (fwd_pos_of action (agent_pos e))),
           step_count e + 1 \<ge> max_steps e),
      after_obs G (after_move (counted e) (fwd_pos_of action (agent_pos e))))"
proof -
  let ?p = "fwd_pos_of action (agent_pos e)"
  have m: "move_to ?p (counted e) = (Inr (move_result (counted e) ?p), after_move (counted e) ?p)"
    using ins rd by (intro move_to_run) simp_all
  have g: "gen_obs G (after_move (counted e) ?p)
           = (Inr (obs_of G (after_move (counted e) ?p)), after_obs G (after_move (counted e) ?p))"
    using bi by (intro gen_obs_run) simp
  have sc: "step_count (after_move (counted e) ?p) = step_count e + 1"
       "max_steps (after_move (counted e) ?p) = max_steps e"
    by (simp_all add: after_move_def counted_def split: option.split)
  show ?thesis
    by (simp add: step_valid [OF a] bind_apply m g gets_def ret_def sc)
qed

lemma for_each_append:
  "for_each (xs @ ys) body s = seq (for_each xs body) (for_each ys body) s"
proof (induction xs arbitrary: s)
  case Nil
  show ?case by (simp add: seq_apply ret_def)
next
  case (Cons x xs)
  show ?case
    by (cases "body x s" rule: prod.exhaust [case_names Pair])
       (auto simp add: seq_apply Cons.IH split: sum.split prod.split)
qed

lemma cells_same: "f = cells g \<Longrightarrow> g\<lparr> cells := f \<rparr> = g"
  by simp

lemma paint_h_empty: "len \<le> 0 \<Longrightarrow> paint_h x y len g = g"
  unfolding paint_h_def by (rule cells_same) (auto simp add: fun_eq_iff)

lemma paint_v_empty: "len \<le> 0 \<Longrightarrow> paint_v x y len g = g"
  unfolding paint_v_def by (rule cells_same) (auto simp add: fun_eq_iff)

lemma horz_loop:
  assumes "0 \<le> x" "x + int n \<le> gwidth g" "0 \<le> y" "y < gheight g"
  shows "for_each (map int [0..<n]) (\<lambda>i. grid_set (x + i) y (Some Wall)) g
         = (Inr (), paint_h x y (int n) g)"
  using assms
proof (induction n)
  case 0
  show ?case by (simp add: ret_def paint_h_empty)
next
  case (Suc n)
  have IH: "for_each (map int [0..<n]) (\<lambda>i. grid_set (x + i) y (Some Wall)) g
            = (Inr (), paint_h x y (int n) g)"
    using Suc by simp
  have ins: "inside (paint_h x y (int n) g) (x + int n) y"
    using Suc.prems by (simp add: inside_def paint_h_def)
  have "(\<lambda>p. if snd p = y \<and> x \<le> fst p \<and> fst p < x + int n then Some Wall else cells g p)
          ((x + int n, y) := Some Wall)
        = (\<lambda>p. if snd p = y \<and> x \<le> fst p \<and> fst p < x + int (Suc n) then Some Wall
                else cells g p)"
    by (auto simp add: fun_eq_iff)
  then have upd: "put_cell (paint_h x y (int n) g) (x + int n, y) (Some Wall)
             = paint_h x y (int (Suc n)) g"
    by (simp add: put_cell_def paint_h_def del: of_nat_Suc)
  show ?case
    by (simp add: for_each_append seq_apply IH grid_set_inside [OF ins] upd ret_def
        del: of_nat_Suc)
qed

lemma vert_loop:
  assumes "0 \<le> y" "y + int n \<le> gheight g" "0 \<le> x" "x < gwidth g"
  shows "for_each (map int [0..<n]) (\<lambda>j. grid_set x (y + j) (Some Wall)) g
         = (Inr (), paint_v x y (int n) g)"
  using assms
proof (induction n)
  case 0
  show ?case by (simp add: ret_def paint_v_empty)
next
  case (Suc n)
  have IH: "for_each (map int [0..<n]) (\<lambda>j. grid_set x (y + j) (Some Wall)) g
            = (Inr (), paint_v x y (int n) g)"
    using Suc by simp
  have ins: "inside (paint_v x y (int n) g) x (y + int n)"
    using Suc.prems by (simp add: inside_def paint_v_def)
  have "(\<lambda>p. if fst p = x \<and> y \<le> snd p \<and> snd p < y + int n then Some Wall else cells g p)
          ((x, y + int n) := Some Wall)
        = (\<lambda>p. if fst p = x \<and> y \<le> snd p \<and> snd p < y + int (Suc n) then Some Wall
                else cells g p)"
    by (auto simp add: fun_eq_iff)
  then have upd: "put_cell (paint_v x y (int n) g) (x, y + int n) (Some Wall)
             = paint_v x y (int (Suc n)) g"
    by (simp add: put_cell_def paint_v_def del: of_nat_Suc)
  show ?case
    by (simp add: for_each_append seq_apply IH grid_set_inside [OF ins] upd ret_def
        del: of_nat_Suc)
qed

lemma horz_wall_run:
  assumes "fits_h g x y len"
  shows "horz_wall x y len g = (Inr (), paint_h x y len g)"
proof (cases "len \<le> 0")
  case True
  then show ?thesis by (simp add: horz_wall_def py_range_def ret_def paint_h_empty)
next
  case False
  then have "0 \<le> x" "x + int (nat len) \<le> gwidth g" "0 \<le> y" "y < gheight g"
    using assms by (simp_all add: fits_h_def)
  from horz_loop [OF this] False show ?thesis
    by (simp add: horz_wall_def py_range_def)
qed

lemma vert_wall_run:
  assumes "fits_v g x y len"
  shows "vert_wall x y len g = (Inr (), paint_v x y len g)"
proof (cases "len \<le> 0")
  case True
  then show ?thesis by (simp add: vert_wall_def py_range_def ret_def paint_v_empty)
next
  case False
  then have "0 \<le> y" "y + int (nat len) \<le> gheight g" "0 \<le> x" "x < gwidth g"
    using assms by (simp_all add: fits_v_def)
  from vert_loop [OF this] False show ?thesis
    by (simp add: vert_wall_def py_range_def)
qed

lemma gwidth_paint [simp]:
  "gwidth (paint_h x y len g) = gwidth g" "gheight (paint_h x y len g) = gheight g"
  "gwidth (paint_v x y len g) = gwidth g" "gheight (paint_v x y len g) = gheight g"
  "gwidth (empty_grid w h) = w" "gheight (empty_grid w h) = h"
  "gwidth (put_cell g p v) = gwidth g" "gheight (put_cell g p v) = gheight g"
  by (simp_all add: paint_h_def paint_v_def empty_grid_def put_cell_def)

lemma on_grid_run: "m (grid e) = (Inr x, g') \<Longrightarrow> on_grid m e = (Inr x, e\<lparr> grid := g' \<rparr>)"
  by (simp add: on_grid_def)

lemma wall_rect_run:
  assumes "3 \<le> w" "3 \<le> h" "gwidth g = w" "gheight g = h"
  shows "wall_rect 0 0 w h g =
         (Inr (), paint_v (w - 1) 0 h (paint_v 0 0 h (paint_h 0 (h - 1) w (paint_h 0 0 w g))))"
proof -
  have 1: "horz_wall 0 0 w g = (Inr (), paint_h 0 0 w g)"
    using assms by (intro horz_wall_run) (simp add: fits_h_def)
  have 2: "horz_wall 0 (h - 1) w (paint_h 0 0 w g) = (Inr (), paint_h 0 (h - 1) w (paint_h 0 0 w g))"
    using assms by (intro horz_wall_run) (simp add: fits_h_def)
  have 3: "vert_wall 0 0 h (paint_h 0 (h - 1) w (paint_h 0 0 w g))
           = (Inr (), paint_v 0 0 h (paint_h 0 (h - 1) w (paint_h 0 0 w g)))"
    using assms by (intro vert_wall_run) (simp add: fits_v_def)
  have 4: "vert_wall (w - 1) 0 h (paint_v 0 0 h (paint_h 0 (h - 1) w (paint_h 0 0 w g)))
           = (Inr (), paint_v (w - 1) 0 h (paint_v 0 0 h (paint_h 0 (h - 1) w (paint_h 0 0 w g))))"
    using assms by (intro vert_wall_run) (simp add: fits_v_def)
  show ?thesis
    by (simp add: wall_rect_def seq_apply 1 2 3 4)
qed

lemma block_Cons: "block (m # ms) = seq m (block ms)"
  by (simp add: block_def)

lemma block_Nil: "block [] = ret ()"
  by (simp add: block_def)

lemma walls_then:
  assumes odd: "w mod 2 = 1" "h mod 2 = 1" and big: "3 \<le> w" "3 \<le> h"
  shows "block
     (on_grid (wall_rect 0 0 w h) #
      on_grid (vert_wall (w div 2 - 1) 2 (h - 3)) #
      on_grid (vert_wall (w div 2 + 1) 2 (h - 3)) #
      on_grid (horz_wall 0 0 w) #
      on_grid (horz_wall 0 2 (w div 2)) #
      on_grid (horz_wall (w div 2 + 1) 2 (w div 2)) # rest) (e\<lparr> grid := empty_grid w h \<rparr>)
     = block rest (e\<lparr> grid := maze_walls w h \<rparr>)"
proof -
  let ?g4 = "paint_v (w - 1) 0 h (paint_v 0 0 h (paint_h 0 (h - 1) w (paint_h 0 0 w (empty_grid w h))))"
  let ?g5 = "paint_v (w div 2 - 1) 2 (h - 3) ?g4"
  let ?g6 = "paint_v (w div 2 + 1) 2 (h - 3) ?g5"
  let ?g7 = "paint_h 0 0 w ?g6"
  let ?g8 = "paint_h 0 2 (w div 2) ?g7"
  let ?g9 = "paint_h (w div 2 + 1) 2 (w div 2) ?g8"
  have half: "0 \<le> w div 2 - 1" "w div 2 + 1 < w" "w div 2 + 1 + w div 2 \<le> w" "w div 2 \<le> w"
    using odd big by presburger+
  have 4: "wall_rect 0 0 w h (empty_grid w h) = (Inr (), ?g4)"
    using big by (intro wall_rect_run) simp_all
  have 5: "vert_wall (w div 2 - 1) 2 (h - 3) ?g4 = (Inr (), ?g5)"
    using big half by (intro vert_wall_run) (simp add: fits_v_def)
  have 6: "vert_wall (w div 2 + 1) 2 (h - 3) ?g5 = (Inr (), ?g6)"
    using big half by (intro vert_wall_run) (simp add: fits_v_def)
  have 7: "horz_wall 0 0 w ?g6 = (Inr (), ?g7)"
    using big by (intro horz_wall_run) (simp add: fits_h_def)
  have 8: "horz_wall 0 2 (w div 2) ?g7 = (Inr (), ?g8)"
    using big half by (intro horz_wall_run) (simp add: fits_h_def)
  have 9: "horz_wall (w div 2 + 1) 2 (w div 2) ?g8 = (Inr (), ?g9)"
    using big half by (intro horz_wall_run) (simp add: fits_h_def)
  show ?thesis
    by (simp add: block_Cons seq_apply on_grid_def 4 5 6 7 8 9 maze_walls_def)
qed

lemma inside_maze_walls [simp]: "inside (maze_walls w h) i j \<longleftrightarrow> 0 \<le> i \<and> i < w \<and> 0 \<le> j \<and> j < h"
  by (simp add: inside_def maze_walls_def)

lemma gen_grid_run:
  assumes odd: "w mod 2 = 1" "h mod 2 = 1" and big: "3 \<le> w" "3 \<le> h"
    and gc: "fst (rng_integers G 2 (np_random e)) \<in> {0, 1}"
  shows "gen_grid G w h e = (Inr (), generated G w h e)"
proof -
  have new: "new_grid w h = modify (\<lambda>e. e\<lparr> grid := empty_grid w h \<rparr>)"
    using big by (simp add: new_grid_def Grid_init_def empty_grid_def)
  have start: "gen_grid G w h e = block
     [modify (\<lambda>e. e\<lparr> agent_pos := (w div 2, h - 2) \<rparr>),
      modify (\<lambda>e. e\<lparr> agent_dir := 3 \<rparr>),
      bind (draw (rng_integers G 2)) (\<lambda>goal_choice.
      bind (py_index [(1, 1), (w - 2, 1)] goal_choice) (\<lambda>gp.
      seq (modify (\<lambda>e. e\<lparr> goal_position := Some gp \<rparr>))
     (bind (py_index [(1, 1), (w - 2, 1)] (1 - goal_choice)) (\<lambda>lp. block
        [modify (\<lambda>e. e\<lparr> lava_position := Some lp \<rparr>),
         modify (\<lambda>e. e\<lparr> arrow_q_values :=
            (replicate action_space_n 0)[(if gp = (w - 2, 1) then 1 else 0) := 1] \<rparr>),
         put_obj (Goal Green) (fst gp) (snd gp),
         put_obj Lava (fst lp) (snd lp)]))))] (e\<lparr> grid := maze_walls w h \<rparr>)"
    unfolding gen_grid_def
    apply (subst block_Cons, subst block_Cons)
    apply (simp only: new seq_apply)
    apply (simp add: odd assert_that_def ret_def modify_def)
    apply (rule walls_then [OF odd big])
    done
  have c1: "inside (maze_walls w h) 1 1" "inside (maze_walls w h) (w - 2) 1"
    using big by simp_all
  from gc have "fst (rng_integers G 2 (np_random e)) = 0 \<or> fst (rng_integers G 2 (np_random e)) = 1"
    by simp
  then show ?thesis
  proof
    assume z: "fst (rng_integers G 2 (np_random e)) = 0"
    show ?thesis
      unfolding start using big
      by (simp add: block_Cons block_Nil run_simps draw_run z py_index_def put_obj_inside c1
          generated_def Let_def)
  next
    assume z: "fst (rng_integers G 2 (np_random e)) = 1"
    show ?thesis
      unfolding start using big
      by (simp add: block_Cons block_Nil run_simps draw_run z py_index_def put_obj_inside c1
          generated_def Let_def)
  qed
qed

lemma numpy_integers: "numpy_contract G \<Longrightarrow> fst (rng_integers G 2 g) \<in> {0, 1}"
proof -
  assume "numpy_contract G"
  then have "0 \<le> fst (rng_integers G 2 g) \<and> fst (rng_integers G 2 g) < 2"
    unfolding numpy_contract_def by (elim conjE allE [of _ 2] allE [of _ g]) simp
  then show ?thesis by auto
qed

lemma cells_put_cell: "cells (put_cell g p v) q = (if q = p then v else cells g q)"
  by (simp add: put_cell_def)

lemma cells_paint_h: "cells (paint_h x y len g) p =
    (if snd p = y \<and> x \<le> fst p \<and> fst p < x + len then Some Wall else cells g p)"
  by (simp add: paint_h_def)

lemma cells_paint_v: "cells (paint_v x y len g) p =
    (if fst p = x \<and> y \<le> snd p \<and> snd p < y + len then Some Wall else cells g p)"
  by (simp add: paint_v_def)

lemma cells_empty_grid: "cells (empty_grid w h) p = None"
  by (simp add: empty_grid_def)

lemma generated_fields [simp]:
  "width (generated G w h e) = width e" "height (generated G w h e) = height e"
  "max_steps (generated G w h e) = max_steps e" "step_count (generated G w h e) = step_count e"
  "num_episodes (generated G w h e) = num_episodes e"
  "path_episode_threshold (generated G w h e) = path_episode_threshold e"
  "agent_pos (generated G w h e) = (w div 2, h - 2)" "agent_dir (generated G w h e) = 3"
  "gwidth (grid (generated G w h e)) = w" "gheight (grid (generated G w h e)) = h"
  by (simp_all add: generated_def Let_def maze_walls_def)

lemma reseeded_fields [simp]:
  "width (reseeded G seed e) = width e" "height (reseeded G seed e) = height e"
  "max_steps (reseeded G seed e) = max_steps e" "num_episodes (reseeded G seed e) = num_episodes e"
  "path_episode_threshold (reseeded G seed e) = path_episode_threshold e"
  by (simp_all add: reseeded_def split: option.split)

lemma cells_walls_start:
  assumes "5 \<le> w" "3 \<le> h"
  shows "cells (maze_walls w h) (w div 2, h - 2) = None"
proof -
  have "w div 2 \<noteq> w - 1" "w div 2 \<noteq> 0"
    using assms by presburger+
  then show ?thesis
    using assms
    by (simp add: maze_walls_def cells_paint_h cells_paint_v cells_empty_grid)
qed

lemma start_cell_free:
  assumes "5 \<le> w" "3 \<le> h"
  shows "cells (grid (generated G w h e)) (w div 2, h - 2) = None"
proof -
  have "w div 2 \<noteq> 1" "w div 2 \<noteq> w - 2"
    using assms by presburger+
  then show ?thesis
    using assms by (simp add: generated_def Let_def cells_put_cell cells_walls_start)
qed

lemma boxes_inside_size:
  assumes "5 \<le> width e" "3 \<le> height e" "gwidth (grid e) = width e" "gheight (grid e) = height e"
  shows "boxes_inside e"
proof -
  have "0 \<le> width e * 3 div 4 - 1" "width e * 3 div 4 + 1 < width e"
       "0 \<le> height e * 2 div 3 - 2" "height e * 2 div 3 < height e"
    using assms by presburger+
  then show ?thesis
    using assms
    by (simp add: boxes_inside_def box_locations_def left_box_def right_box_def up_box_def
        down_box_def inside_def)
qed

lemma reset_run:
  assumes sz: "valid_size e" and G: "numpy_contract G"
  shows "reset G seed e =
         (Inr (obs_of G (before_first_obs G seed e)), after_obs G (before_first_obs G seed e))"
proof -
  let ?w = "width e" and ?h = "height e"
  let ?e1 = "(reseeded G seed (e\<lparr> num_episodes := num_episodes e + 1 \<rparr>))
               \<lparr> agent_pos := (- 1, - 1), agent_dir := - 1 \<rparr>"
  let ?b = "before_first_obs G seed e"
  have odd: "?w mod 2 = 1" "?h mod 2 = 1" and big: "3 \<le> ?w" "3 \<le> ?h" "5 \<le> ?w"
    using sz by (simp_all add: valid_size_def)
  have seedstep: "(case seed of None \<Rightarrow> ret () | Some s \<Rightarrow> modify (\<lambda>e. e\<lparr> np_random := rng_seed G s \<rparr>))
                  = modify (reseeded G seed)"
    by (cases seed) (simp_all add: reseeded_def ret_def modify_def)
  have gg: "gen_grid G ?w ?h ?e1 = (Inr (), generated G ?w ?h ?e1)"
    by (rule gen_grid_run [OF odd big(1,2) numpy_integers [OF G]])
  have free: "cells (grid (generated G ?w ?h ?e1)) (?w div 2, ?h - 2) = None"
    by (rule start_cell_free [OF big(3) big(2)])
  have pos: "0 \<le> ?w div 2" "0 \<le> ?h - 2" "?w div 2 < ?w" "?h - 2 < ?h"
    using big by presburger+
  have ins: "inside (grid (generated G ?w ?h ?e1)) (?w div 2) (?h - 2)"
    using pos by (simp add: inside_def)
  have bi: "boxes_inside ?b"
    using big by (intro boxes_inside_size) (simp_all add: before_first_obs_def)
  have pre: "block
       [modify (\<lambda>e. e\<lparr> num_episodes := num_episodes e + 1 \<rparr>),
        (case seed of None \<Rightarrow> ret () | Some s \<Rightarrow> modify (\<lambda>e. e\<lparr> np_random := rng_seed G s \<rparr>)),
        modify (\<lambda>e. e\<lparr> agent_pos := (- 1, - 1) \<rparr>),
        modify (\<lambda>e. e\<lparr> agent_dir := - 1 \<rparr>),
        bind (gets width) (\<lambda>w. bind (gets height) (\<lambda>h. gen_grid G w h)),
        bind (gets agent_pos) (\<lambda>p. bind (gets agent_dir) (\<lambda>d.
          assert_that (0 \<le> fst p \<and> 0 \<le> snd p \<and> 0 \<le> d))),
        bind (gets agent_pos) (\<lambda>p. bind (on_grid (grid_get (fst p) (snd p))) (\<lambda>start_cell.
          assert_that (case start_cell of None \<Rightarrow> True | Some ob \<Rightarrow> can_overlap ob))),
        modify (\<lambda>e. e\<lparr> step_count := 0 \<rparr>)] e = (Inr (), ?b)"
    unfolding seedstep
    using pos
    by (simp add: block_Cons block_Nil run_simps gg on_grid_def grid_get_inside [OF ins] free
        before_first_obs_def)
  show ?thesis
    by (simp add: reset_def seq_apply pre gen_obs_run [OF bi])
qed

lemma scaled_in_range:
  fixes lo hi t :: real
  assumes "lo < hi" "0 \<le> t" "t < 1"
  shows "lo \<le> lo + (hi - lo) * t \<and> lo + (hi - lo) * t < hi"
proof -
  have "0 \<le> (hi - lo) * t" using assms by simp
  moreover have "(hi - lo) * t < (hi - lo) * 1"
    using assms by (intro mult_strict_left_mono) simp_all
  ultimately show ?thesis by simp
qed

lemma toy_contract: "numpy_contract toy_generator"
proof -
  have i: "0 \<le> fst (rng_integers toy_generator h g) \<and> fst (rng_integers toy_generator h g) < h"
    if "0 < h" for h g
    using that by (simp add: toy_generator_def)
  have r: "0 \<le> fst (rng_random toy_generator g) \<and> fst (rng_random toy_generator g) < 1" for g
    by (simp add: toy_generator_def)
  have u: "length (fst (rng_uniform toy_generator lo hi n g)) = n \<and>
           (\<forall>x \<in> set (fst (rng_uniform toy_generator lo hi n g)). lo \<le> x \<and> x < hi)"
    if "lo < hi" for lo hi n g
  proof -
    have "lo \<le> lo + (hi - lo) * (real ((g + k) mod 8) / 8) \<and>
          lo + (hi - lo) * (real ((g + k) mod 8) / 8) < hi" for k
      by (rule scaled_in_range [OF that]) simp_all
    then show ?thesis by (simp add: toy_generator_def)
  qed
  show ?thesis
    unfolding numpy_contract_def using i r u by blast
qed

lemma after_obs_fields [simp]:
  "width (after_obs G e) = width e" "height (after_obs G e) = height e"
  "max_steps (after_obs G e) = max_steps e" "step_count (after_obs G e) = step_count e"
  "agent_pos (after_obs G e) = agent_pos e" "agent_dir (after_obs G e) = agent_dir e"
  "goal_position (after_obs G e) = goal_position e"
  "lava_position (after_obs G e) = lava_position e"
  "arrow_q_values (after_obs G e) = arrow_q_values e"
  "num_episodes (after_obs G e) = num_episodes e"
  "path_episode_threshold (after_obs G e) = path_episode_threshold e"
  by (simp_all add: after_obs_def)

lemma random_decoys_dims [simp]:
  "gwidth (fst (random_decoys G ps s)) = gwidth (fst s)"
  "gheight (fst (random_decoys G ps s)) = gheight (fst s)"
  by (induction ps arbitrary: s) simp_all

lemma fold_clear_dims [simp]:
  "gwidth (fold (\<lambda>p g. put_cell g p None) ps g) = gwidth g"
  "gheight (fold (\<lambda>p g. put_cell g p None) ps g) = gheight g"
  by (induction ps arbitrary: g) simp_all

lemma decoys_placed_dims [simp]:
  "gwidth (fst (decoys_placed G e)) = gwidth (grid e)"
  "gheight (fst (decoys_placed G e)) = gheight (grid e)"
  by (simp_all add: decoys_placed_def cleared_def)

lemma after_obs_dims [simp]:
  "gwidth (grid (after_obs G e)) = gwidth (grid e)"
  "gheight (grid (after_obs G e)) = gheight (grid e)"
  by (simp_all add: after_obs_def)

lemma random_decoys_frame:
  "p \<notin> set ps \<Longrightarrow> cells (fst (random_decoys G ps s)) p = cells (fst s) p"
  by (induction ps arbitrary: s) (simp_all add: cells_put_cell)

lemma fold_clear_frame:
  "p \<notin> set ps \<Longrightarrow> cells (fold (\<lambda>p g. put_cell g p None) ps g) p = cells g p"
  by (induction ps arbitrary: g) (simp_all add: cells_put_cell)

lemma decoys_placed_frame:
  assumes "p \<notin> set (box_locations (width e) (height e))"
  shows "cells (fst (decoys_placed G e)) p = cells (grid e) p"
proof -
  have "p \<noteq> decoy_target (width e) (height e) (goal_position e) (agent_pos e)"
    using assms decoy_target_in_boxes [of "width e" "height e" "goal_position e" "agent_pos e"]
    by auto
  then show ?thesis
    using assms
    by (simp add: decoys_placed_def cleared_def cells_put_cell random_decoys_frame
        fold_clear_frame)
qed

lemma after_obs_frame:
  "p \<notin> set (box_locations (width e) (height e)) \<Longrightarrow>
   cells (grid (after_obs G e)) p = cells (grid e) p"
  by (simp add: after_obs_def decoys_placed_frame)

lemma before_first_obs_fields [simp]:
  "width (before_first_obs G seed e) = width e" "height (before_first_obs G seed e) = height e"
  "max_steps (before_first_obs G seed e) = max_steps e"
  "step_count (before_first_obs G seed e) = 0"
  "num_episodes (before_first_obs G seed e) = num_episodes e + 1"
  "path_episode_threshold (before_first_obs G seed e) = path_episode_threshold e"
  "agent_pos (before_first_obs G seed e) = (width e div 2, height e - 2)"
  "agent_dir (before_first_obs G seed e) = 3"
  "gwidth (grid (before_first_obs G seed e)) = width e"
  "gheight (grid (before_first_obs G seed e)) = height e"
  by (simp_all add: before_first_obs_def)

lemma fresh11_fields [simp]:
  "width fresh11 = 11" "height fresh11 = 11" "max_steps fresh11 = 242"
  "num_episodes fresh11 = 0" "path_episode_threshold fresh11 = 2000" "np_random fresh11 = 0"
  by (simp_all add: fresh11_def TMaze_init_def Grid_init_def)

lemma valid_size_fresh11: "valid_size fresh11"
  by (simp add: valid_size_def)

lemma start11_eq:
  "start11 = after_obs toy_generator (before_first_obs toy_generator (Some 1) fresh11)"
  by (simp add: start11_def reset_run [OF valid_size_fresh11 toy_contract])

lemma start11_fields [simp]:
  "width start11 = 11" "height start11 = 11" "max_steps start11 = 242"
  "step_count start11 = 0" "agent_pos start11 = (5, 9)" "agent_dir start11 = 3"
  "num_episodes start11 = 1" "path_episode_threshold start11 = 2000"
  "gwidth (grid start11) = 11" "gheight (grid start11) = 11"
  by (simp_all add: start11_eq)

lemma counted_fields [simp]:
  "step_count (counted e) = step_count e + 1" "max_steps (counted e) = max_steps e"
  "agent_pos (counted e) = agent_pos e" "agent_dir (counted e) = agent_dir e"
  "width (counted e) = width e" "height (counted e) = height e"
  by (simp_all add: counted_def)

lemma after_move_fields [simp]:
  "step_count (after_move e p) = step_count e" "max_steps (after_move e p) = max_steps e"
  "agent_dir (after_move e p) = agent_dir e" "grid (after_move e p) = grid e"
  "width (after_move e p) = width e" "height (after_move e p) = height e"
  by (simp_all add: after_move_def split: option.split)

lemma start11_boxes: "boxes_inside start11"
  by (rule boxes_inside_size) simp_all

lemma start11_goal: "cells (grid start11) (9, 1) = Some (Goal Green)"
proof -
  have "(9, 1) \<notin> set (box_locations 11 11)"
    by (simp add: box_locations_def left_box_def right_box_def up_box_def down_box_def)
  then have "cells (grid start11) (9, 1)
             = cells (grid (before_first_obs toy_generator (Some 1) fresh11)) (9, 1)"
    by (simp add: start11_eq after_obs_frame)
  also have "\<dots> = Some (Goal Green)"
    by (simp add: before_first_obs_def generated_def reseeded_def Let_def cells_put_cell
        toy_generator_def)
  finally show ?thesis .
qed

text \<open>
  Claim C7, as amended. For every action value outside the four movements, \<open>step\<close> raises
  an error and returns no observation; the agent's pose and the grid are as before the call,
  and the step counter has been incremented by one.
\<close>

theorem invalid_action_rejected:
  assumes "action \<notin> {0, 1, 2, 3}"
  shows "(\<exists>err. fst (step G action e) = Inl err)
       \<and> step_count (snd (step G action e)) = step_count e + 1
       \<and> agent_pos (snd (step G action e)) = agent_pos e
       \<and> agent_dir (snd (step G action e)) = agent_dir e
       \<and> grid (snd (step G action e)) = grid e"
  by (simp add: step_invalid [OF assms])

theorem invalid_action_rejected_witness:
  "(7::int) \<notin> {0, 1, 2, 3}
   \<and> (\<exists>err. fst (step toy_generator 7 start11) = Inl err)
   \<and> step_count (snd (step toy_generator 7 start11)) = 1
   \<and> agent_pos (snd (step toy_generator 7 start11)) = (5, 9)
   \<and> grid (snd (step toy_generator 7 start11)) = grid start11"
proof -
  have a: "(7::int) \<notin> {0, 1, 2, 3}" by simp
  show ?thesis
    using invalid_action_rejected [OF a, of toy_generator start11] a by simp
qed

text \<open>
  The claim as stated fails: on the action value 7 the error raised is the
  \<open>AttributeError\<close> of the missing member \<open>done\<close>, not the \<open>ValueError\<close> of the last
  branch, and the step counter has moved from 0 to 1.
\<close>

theorem invalid_action_counterexample:
  "fst (step toy_generator 7 start11) = Inl AttributeError
   \<and> step_count start11 = 0
   \<and> step_count (snd (step toy_generator 7 start11)) = 1"
  by (simp add: step_invalid)



lemma last_step11_facts:
  "inside (grid last_step11) 9 1" "boxes_inside last_step11" "max_steps last_step11 \<noteq> 0"
  "fwd_pos_of 2 (agent_pos last_step11) = (9, 1)"
  "cells (grid last_step11) (9, 1) = Some (Goal Green)"
  "step_count last_step11 = 241" "max_steps last_step11 = 242"
  using start11_boxes
  by (simp_all add: last_step11_def inside_def boxes_inside_def fwd_pos_of_def start11_goal)


text \<open>
  Claim C10. When a movement enters a cell holding a Goal object on a step whose incremented
  counter has reached \<open>max_steps\<close>, \<open>step\<close> returns \<open>terminated = True\<close> and
  \<open>truncated = True\<close> together, and the reward is the shaped goal reward
  \<open>1 - 0.9 * (step_count / max_steps)\<close> with the incremented counter.
\<close>

theorem goal_on_last_step:
  assumes a: "action \<in> {0, 1, 2, 3}"
    and ins: "inside (grid e) (fst (fwd_pos_of action (agent_pos e)))
                (snd (fwd_pos_of action (agent_pos e)))"
    and bi: "boxes_inside e"
    and goal: "cells (grid e) (fwd_pos_of action (agent_pos e)) = Some (Goal c)"
    and last: "max_steps e \<le> step_count e + 1"
    and ms: "max_steps e \<noteq> 0"
  shows "\<exists>ob e'. step G action e =
           (Inr (ob, 1 - 0.9 * (real_of_int (step_count e + 1) / real_of_int (max_steps e)),
                 True, True), e')"
proof -
  have rd: "reward_defined e (fwd_pos_of action (agent_pos e))"
    using ms goal by (simp add: reward_defined_def)
  show ?thesis
    unfolding step_run [OF a ins rd bi]
    using goal last by (simp add: move_result_def)
qed

theorem goal_on_last_step_witness:
  "(2::int) \<in> {0, 1, 2, 3} \<and> inside (grid last_step11) 9 1 \<and> boxes_inside last_step11
   \<and> cells (grid last_step11) (9, 1) = Some (Goal Green)
   \<and> max_steps last_step11 \<le> step_count last_step11 + 1 \<and> max_steps last_step11 \<noteq> 0
   \<and> (\<exists>ob e'. step toy_generator 2 last_step11 = (Inr (ob, 1 / 10, True, True), e'))"
proof -
  have a: "(2::int) \<in> {0, 1, 2, 3}" by simp
  have ins: "inside (grid last_step11) (fst (fwd_pos_of 2 (agent_pos last_step11)))
               (snd (fwd_pos_of 2 (agent_pos last_step11)))"
    by (simp add: last_step11_facts)
  have goal: "cells (grid last_step11) (fwd_pos_of 2 (agent_pos last_step11)) = Some (Goal Green)"
    by (simp add: last_step11_facts)
  have last: "max_steps last_step11 \<le> step_count last_step11 + 1"
    by (simp add: last_step11_facts)
  from goal_on_last_step [OF a ins last_step11_facts(2) goal last last_step11_facts(3),
      of toy_generator]
  show ?thesis
    using a by (simp add: last_step11_facts)
qed

lemma random_decoys_gen: "snd (random_decoys G ps s) = gen_after G (length ps) (snd s)"
  by (induction ps arbitrary: s) simp_all

lemma random_decoys_cell:
  assumes "distinct ps" "i < length ps"
  shows "cells (fst (random_decoys G ps s)) (ps ! i) =
         (if fst (rng_random G (gen_after G i (snd s))) < 0.5 then Some grey_box
          else cells (fst s) (ps ! i))"
  using assms
proof (induction ps arbitrary: s i)
  case Nil
  then show ?case by simp
next
  case (Cons p ps)
  show ?case
  proof (cases i)
    case 0
    have "p \<notin> set ps" using Cons.prems by simp
    then show ?thesis
      using 0 by (simp add: random_decoys_frame cells_put_cell)
  next
    case (Suc j)
    have j: "j < length ps" "distinct ps" "ps ! j \<noteq> p"
      using Cons.prems Suc by auto
    show ?thesis
      using Suc Cons.IH [OF j(2) j(1)] j(3)
      by (simp add: cells_put_cell)
  qed
qed

lemma fold_clear_hit:
  "p \<in> set ps \<Longrightarrow> cells (fold (\<lambda>p g. put_cell g p None) ps g) p = None"
proof (induction ps arbitrary: g)
  case Nil
  then show ?case by simp
next
  case (Cons q ps)
  show ?case
  proof (cases "p \<in> set ps")
    case True
    then show ?thesis using Cons.IH by simp
  next
    case False
    then have "p = q" using Cons.prems by simp
    then show ?thesis using False by (simp add: fold_clear_frame cells_put_cell)
  qed
qed

lemma distinct_boxes: "distinct (box_locations W H)"
  by (simp add: box_locations_def left_box_def right_box_def up_box_def down_box_def)

lemma length_boxes [simp]: "length (box_locations W H) = 4"
  by (simp add: box_locations_def)

lemma decoys_random_cell:
  assumes "\<not> past_threshold e" "i < 4"
  shows "cells (fst (decoys_placed G e)) (box_locations (width e) (height e) ! i) =
         (if nth_draw G e i < 0.5 then Some grey_box else None)"
proof -
  have "box_locations (width e) (height e) ! i \<in> set (box_locations (width e) (height e))"
    using assms by (intro nth_mem) simp
  then show ?thesis
    using assms
    by (simp add: decoys_placed_def random_decoys_cell [OF distinct_boxes] nth_draw_def
        cleared_def fold_clear_hit)
qed

lemma decoys_fixed_cell:
  assumes "past_threshold e" "b \<in> set (box_locations (width e) (height e))"
  shows "cells (fst (decoys_placed G e)) b =
         (if b = decoy_target (width e) (height e) (goal_position e) (agent_pos e)
          then Some grey_box else None)"
  using assms by (simp add: decoys_placed_def cells_put_cell cleared_def fold_clear_hit)

lemma decoys_placed_gen:
  "snd (decoys_placed G e) =
     (if past_threshold e then np_random e else gen_after G 4 (np_random e))"
  by (simp add: decoys_placed_def random_decoys_gen)

text \<open>
  Claim C5, as amended. Every observation first empties the four candidate cells. While
  \<open>num_episodes\<close> is at most the threshold, the cells are visited in the order left, right,
  up, down, \<^verbatim>\<open>random()\<close> is drawn once for each, and the cell receives the grey decoy
  exactly when its own draw is below 0.5. Once \<open>num_episodes\<close> exceeds the threshold,
  exactly one candidate cell holds the decoy and no draw decides it: with the agent in the
  row \<open>y = 1\<close> it is the right cell when the goal is in the right corner and the left cell
  otherwise; with the agent in any other row it is the upper cell, whatever the goal side.
  The switch is the comparison \<open>num_episodes > threshold\<close> and nothing in between.
\<close>

theorem decoy_placement:
  assumes bi: "boxes_inside e"
  shows "fst (gen_obs G e) = Inr (obs_of G e)
       \<and> (\<not> num_episodes e > path_episode_threshold e \<longrightarrow>
            (\<forall>i<4. cells (grid (snd (gen_obs G e))) (box_locations (width e) (height e) ! i) =
                     (if nth_draw G e i < 0.5 then Some grey_box else None)))
       \<and> (num_episodes e > path_episode_threshold e \<longrightarrow>
            (\<forall>b \<in> set (box_locations (width e) (height e)).
               cells (grid (snd (gen_obs G e))) b =
                 (if b = (if snd (agent_pos e) = 1
                          then (if goal_position e = Some (width e - 2, 1)
                                then right_box (width e) (height e)
                                else left_box (width e) (height e))
                          else up_box (width e) (height e))
                  then Some grey_box else None)))"
proof -
  have t: "decoy_target (width e) (height e) (goal_position e) (agent_pos e) =
           (if snd (agent_pos e) = 1
            then (if goal_position e = Some (width e - 2, 1)
                  then right_box (width e) (height e) else left_box (width e) (height e))
            else up_box (width e) (height e))"
    by (simp add: decoy_target_def)
  have g: "grid (snd (gen_obs G e)) = fst (decoys_placed G e)"
    by (simp add: gen_obs_run [OF bi] after_obs_def)
  show ?thesis
    unfolding g
    using decoys_random_cell [of e _ G] decoys_fixed_cell [of e _ G]
    by (simp add: gen_obs_run [OF bi] past_threshold_def t)
qed

lemma boxes11:
  "box_locations 11 11 = [(7, 6), (9, 6), (8, 5), (8, 7)]"
  "left_box 11 11 = (7, 6)" "right_box 11 11 = (9, 6)" "up_box 11 11 = (8, 5)"
  "down_box 11 11 = (8, 7)"
  by (simp_all add: box_locations_def left_box_def right_box_def up_box_def down_box_def)

lemma first11_fields:
  "np_random (before_first_obs toy_generator (Some 1) e) = 2"
  "goal_position (before_first_obs toy_generator (Some 1) e) = Some (width e - 2, 1)"
  "lava_position (before_first_obs toy_generator (Some 1) e) = Some (1, 1)"
  by (simp_all add: before_first_obs_def generated_def reseeded_def Let_def toy_generator_def)

lemma gen_after_toy: "gen_after toy_generator i g = g + i"
  by (induction i arbitrary: g) (simp_all add: toy_generator_def)

lemma toy_draws:
  "snd (rng_uniform toy_generator lo hi k n) = n + k"
  "fst (rng_random toy_generator n) = real (n mod 5) / 5"
  "snd (rng_random toy_generator n) = n + 1"
  by (simp_all add: toy_generator_def)

lemma start11_gen: "np_random start11 = 10"
  by (simp add: start11_eq after_obs_def noise_drawn_def decoys_placed_gen past_threshold_def
      first11_fields gen_after_toy toy_draws action_space_n_def)

lemma start11_goal_position: "goal_position start11 = Some (9, 1)"
  by (simp add: start11_eq first11_fields)

theorem decoy_placement_witness:
  "boxes_inside start11
   \<and> fst (gen_obs toy_generator start11) = Inr (obs_of toy_generator start11)
   \<and> \<not> num_episodes start11 > path_episode_threshold start11
   \<and> nth_draw toy_generator start11 1 = 1 / 5
   \<and> cells (grid (snd (gen_obs toy_generator start11))) (9, 6) = Some grey_box
   \<and> nth_draw toy_generator start11 3 = 3 / 5
   \<and> cells (grid (snd (gen_obs toy_generator start11))) (8, 7) = None"
proof -
  have d: "nth_draw toy_generator start11 1 = 1 / 5" "nth_draw toy_generator start11 3 = 3 / 5"
    by (simp_all add: nth_draw_def gen_after_toy start11_gen toy_draws)
  have n: "\<not> num_episodes start11 > path_episode_threshold start11" by simp
  from decoy_placement [OF start11_boxes, of toy_generator]
  have r: "fst (gen_obs toy_generator start11) = Inr (obs_of toy_generator start11)"
    and c: "\<forall>i<4. cells (grid (snd (gen_obs toy_generator start11))) (box_locations 11 11 ! i)
              = (if nth_draw toy_generator start11 i < 0.5 then Some grey_box else None)"
    using n by simp_all
  from c have "cells (grid (snd (gen_obs toy_generator start11))) (box_locations 11 11 ! 1)
              = (if nth_draw toy_generator start11 1 < 0.5 then Some grey_box else None)"
       and "cells (grid (snd (gen_obs toy_generator start11))) (box_locations 11 11 ! 3)
              = (if nth_draw toy_generator start11 3 < 0.5 then Some grey_box else None)"
    by simp_all
  then show ?thesis
    using r n d start11_boxes by (simp add: boxes11 numeral_3_eq_3)
qed

lemma veteran11_fields [simp]:
  "width veteran11 = 11" "height veteran11 = 11" "max_steps veteran11 = 242"
  "num_episodes veteran11 = 2000" "path_episode_threshold veteran11 = 2000"
  by (simp_all add: veteran11_def)

lemma valid_size_veteran11: "valid_size veteran11"
  by (simp add: valid_size_def)

lemma late11_eq:
  "late11 = after_obs toy_generator (before_first_obs toy_generator (Some 1) veteran11)"
  by (simp add: late11_def reset_run [OF valid_size_veteran11 toy_contract])

text \<open>
  The claim as stated fails once the threshold is passed and the agent is not in the top
  row: after the reset that starts episode 2001 the goal is in the right corner, the agent
  is at its start cell, the right candidate cell is empty and the decoy is in the upper one.
\<close>

theorem decoy_placement_counterexample:
  "fst (reset toy_generator (Some 1) veteran11)
     = Inr (obs_of toy_generator (before_first_obs toy_generator (Some 1) veteran11))
   \<and> num_episodes late11 = 2001 \<and> path_episode_threshold late11 = 2000
   \<and> goal_position late11 = Some (9, 1) \<and> agent_pos late11 = (5, 9)
   \<and> cells (grid late11) (right_box 11 11) = None
   \<and> cells (grid late11) (up_box 11 11) = Some (Goal Grey)"
proof -
  let ?b = "before_first_obs toy_generator (Some 1) veteran11"
  have f: "width ?b = 11" "height ?b = 11" "num_episodes ?b = 2001"
    "path_episode_threshold ?b = 2000" "agent_pos ?b = (5, 9)" "goal_position ?b = Some (9, 1)"
    by (simp_all add: first11_fields)
  have past: "past_threshold ?b" by (simp add: past_threshold_def)
  have t: "decoy_target 11 11 (Some (9, 1)) (5, 9) = (8, 5)"
    by (simp add: decoy_target_def boxes11)
  have "cells (fst (decoys_placed toy_generator ?b)) (9, 6) = None"
       "cells (fst (decoys_placed toy_generator ?b)) (8, 5) = Some (Goal Grey)"
    using decoys_fixed_cell [OF past, of "(9, 6)" toy_generator]
          decoys_fixed_cell [OF past, of "(8, 5)" toy_generator]
    by (simp_all add: f boxes11 t grey_box_def)
  then show ?thesis
    by (simp add: late11_eq reset_run [OF valid_size_veteran11 toy_contract] f boxes11
        after_obs_def)
qed

lemma fresh9_fields [simp]:
  "width fresh9 = 9" "height fresh9 = 9" "max_steps fresh9 = 162"
  "num_episodes fresh9 = 0" "path_episode_threshold fresh9 = 2000" "np_random fresh9 = 0"
  by (simp_all add: fresh9_def TMaze_init_def Grid_init_def)

lemma valid_size_fresh9: "valid_size fresh9"
  by (simp add: valid_size_def)

lemma start9_eq:
  "start9 = after_obs toy_generator (before_first_obs toy_generator (Some 1) fresh9)"
  by (simp add: start9_def reset_run [OF valid_size_fresh9 toy_contract])




lemma start9_fields [simp]:
  "width start9 = 9" "height start9 = 9" "max_steps start9 = 162"
  "gwidth (grid start9) = 9" "gheight (grid start9) = 9"
  "goal_position start9 = Some (7, 1)" "lava_position start9 = Some (1, 1)"
  by (simp_all add: start9_eq first11_fields)



lemma move_to_zero_division:
  assumes "inside (grid e) (fst p) (snd p)" and "\<not> reward_defined e p"
  shows "move_to p e = (Inl ZeroDivisionError, e\<lparr> agent_pos := p \<rparr>)"
proof -
  from assms(2) obtain ob where ob: "cells (grid e) p = Some ob" "obj_type ob = ''goal''"
    and ms: "max_steps e = 0"
    by (auto simp add: reward_defined_def split: option.splits)
  from ob(2) obtain c where "ob = Goal c" by (cases ob) simp_all
  then show ?thesis
    using assms(1) ob(1) ms
    by (simp add: move_to_def on_grid_def grid_get_inside run_simps reward_fn_def)
qed

lemma step_state_cases:
  assumes bi: "boxes_inside e"
  shows "snd (step G action e) = counted e
       \<or> snd (step G action e) = (counted e)\<lparr> agent_pos := fwd_pos_of action (agent_pos e) \<rparr>
       \<or> snd (step G action e) = after_obs G (after_move (counted e) (fwd_pos_of action (agent_pos e)))"
proof (cases "action \<in> {0, 1, 2, 3}")
  case False
  then show ?thesis by (simp add: step_invalid)
next
  case True
  let ?p = "fwd_pos_of action (agent_pos e)"
  show ?thesis
  proof (cases "inside (grid e) (fst ?p) (snd ?p)")
    case False
    then have "move_to ?p (counted e) = (Inl AssertionError, counted e)"
      by (intro move_to_outside) simp
    then show ?thesis by (simp add: step_valid [OF True] bind_apply)
  next
    case ins: True
    show ?thesis
    proof (cases "reward_defined e ?p")
      case True
      from step_run [OF \<open>action \<in> {0, 1, 2, 3}\<close> ins True bi, of G] show ?thesis by simp
    next
      case False
      have "move_to ?p (counted e) = (Inl ZeroDivisionError, (counted e)\<lparr> agent_pos := ?p \<rparr>)"
        using ins False by (intro move_to_zero_division) simp_all
      then show ?thesis by (simp add: step_valid [OF \<open>action \<in> {0, 1, 2, 3}\<close>] bind_apply)
    qed
  qed
qed

lemma step_frame:
  assumes bi: "boxes_inside e"
  shows "width (snd (step G action e)) = width e \<and> height (snd (step G action e)) = height e
       \<and> boxes_inside (snd (step G action e))
       \<and> (p \<notin> set (box_locations (width e) (height e)) \<longrightarrow>
            cells (grid (snd (step G action e))) p = cells (grid e) p)"
proof -
  let ?m = "after_move (counted e) (fwd_pos_of action (agent_pos e))"
  have 1: "boxes_inside (after_obs G ?m)"
    using bi by (simp add: boxes_inside_def all_inside_def inside_def)
  have 2: "boxes_inside ((counted e)\<lparr> agent_pos := fwd_pos_of action (agent_pos e) \<rparr>)"
    using bi by (simp add: boxes_inside_def)
  have 3: "p \<notin> set (box_locations (width e) (height e)) \<Longrightarrow>
           cells (grid (after_obs G ?m)) p = cells (grid e) p"
    using after_obs_frame [of p ?m G] by simp
  from step_state_cases [OF bi, of G action] show ?thesis
    using bi 1 2 3 by (elim disjE) simp_all
qed

lemma steps_frame:
  assumes "boxes_inside e" "p \<notin> set (box_locations (width e) (height e))"
  shows "cells (grid (steps G as e)) p = cells (grid e) p"
  using assms
proof (induction as arbitrary: e)
  case Nil
  show ?case by simp
next
  case (Cons a as)
  note f = step_frame [OF Cons.prems(1), of G a p]
  have "cells (grid (steps G as (snd (step G a e)))) p = cells (grid (snd (step G a e))) p"
    using f Cons.prems(2) by (intro Cons.IH) simp_all
  then show ?case using f Cons.prems(2) by simp
qed

text \<open>
  Claim C8, as amended. In an environment whose four candidate decoy cells lie inside the
  grid, every cell other than those four keeps its content through every observation and
  through every sequence of calls of \<open>step\<close>, whatever the actions and whether the calls
  return or raise.
\<close>

theorem grid_frame:
  assumes bi: "boxes_inside e" and out: "p \<notin> set (box_locations (width e) (height e))"
  shows "cells (grid (snd (gen_obs G e))) p = cells (grid e) p
       \<and> cells (grid (steps G as e)) p = cells (grid e) p"
  using steps_frame [OF bi out] after_obs_frame [OF out]
  by (simp add: gen_obs_run [OF bi])

lemma start11_free_ahead: "cells (grid start11) (5, 8) = None"
proof -
  have "(5, 8) \<notin> set (box_locations 11 11)" by (simp add: boxes11)
  then have "cells (grid start11) (5, 8)
             = cells (grid (before_first_obs toy_generator (Some 1) fresh11)) (5, 8)"
    by (simp add: start11_eq after_obs_frame)
  also have "\<dots> = None"
    by (simp add: before_first_obs_def generated_def reseeded_def Let_def cells_put_cell
        toy_generator_def maze_walls_def cells_paint_h cells_paint_v cells_empty_grid)
  finally show ?thesis .
qed

lemma moved_gen [simp]:
  "np_random (counted e) = np_random e" "np_random (after_move e p) = np_random e"
  "num_episodes (counted e) = num_episodes e" "num_episodes (after_move e p) = num_episodes e"
  "path_episode_threshold (counted e) = path_episode_threshold e"
  "path_episode_threshold (after_move e p) = path_episode_threshold e"
  by (simp_all add: counted_def after_move_def split: option.split)

theorem grid_frame_witness:
  "boxes_inside start11 \<and> (9, 1) \<notin> set (box_locations (width start11) (height start11))
   \<and> cells (grid start11) (9, 1) = Some (Goal Green)
   \<and> cells (grid (snd (gen_obs toy_generator start11))) (9, 1) = Some (Goal Green)
   \<and> cells (grid (steps toy_generator [1, 7, 0] start11)) (9, 1) = Some (Goal Green)"
proof -
  have out: "(9, 1) \<notin> set (box_locations (width start11) (height start11))"
    by (simp add: boxes11)
  from grid_frame [OF start11_boxes out, of toy_generator "[1, 7, 0]"]
  show ?thesis
    using start11_boxes out by (simp add: start11_goal)
qed

text \<open>
  The claim as stated fails on the candidate cells. After the first reset the right
  candidate cell \<open>(9, 6)\<close> is empty; the agent then moves one cell forward, the step
  returns, and the observation of that step has put the grey decoy into the cell.
\<close>

theorem grid_frame_counterexample:
  "cells (grid start11) (9, 6) = None
   \<and> fst (step toy_generator 1 start11)
       = Inr (obs_of toy_generator (after_move (counted start11) (5, 8)), 0, False, False)
   \<and> cells (grid (snd (step toy_generator 1 start11))) (9, 6) = Some (Goal Grey)"
proof -
  let ?b = "before_first_obs toy_generator (Some 1) fresh11"
  let ?m = "after_move (counted start11) (5, 8)"
  have nb: "\<not> past_threshold ?b" by (simp add: past_threshold_def)
  have db: "nth_draw toy_generator ?b (Suc 0) = 3 / 5"
    by (simp add: nth_draw_def first11_fields toy_draws)
  from decoys_random_cell [OF nb, of "Suc 0" toy_generator]
  have before: "cells (grid start11) (9, 6) = None"
    by (simp add: start11_eq after_obs_def boxes11 db)
  have a: "(1::int) \<in> {0, 1, 2, 3}" by simp
  have p: "fwd_pos_of 1 (agent_pos start11) = (5, 8)"
    by (simp add: fwd_pos_of_def)
  have ins: "inside (grid start11) (fst (fwd_pos_of 1 (agent_pos start11)))
               (snd (fwd_pos_of 1 (agent_pos start11)))"
    unfolding p by (simp add: inside_def)
  have rd: "reward_defined start11 (fwd_pos_of 1 (agent_pos start11))"
    unfolding p by (simp add: reward_defined_def start11_free_ahead)
  note run = step_run [OF a ins rd start11_boxes, of toy_generator, unfolded p]
  have nm: "\<not> past_threshold ?m" by (simp add: past_threshold_def)
  have dm: "nth_draw toy_generator ?m (Suc 0) = 1 / 5"
    by (simp add: nth_draw_def start11_gen toy_draws)
  from decoys_random_cell [OF nm, of "Suc 0" toy_generator]
  have after: "cells (fst (decoys_placed toy_generator ?m)) (9, 6) = Some (Goal Grey)"
    by (simp add: boxes11 dm grey_box_def)
  show ?thesis
    by (simp add: run before after after_obs_def move_result_def start11_free_ahead)
qed

text \<open>
  Claim C1 on \<^verbatim>\<open>main.py\<close>: what the code does. With the draw in \<open>[0, 1)\<close>, as
  \<^verbatim>\<open>randint(0, 1)\<close> gives it, the hint away from the decision cell is the constant 0,
  whatever the goal side and whatever the generator: it is not noise, and it coincides with
  the encoding of a goal in the left corner. At the decision cell the value to convert is
  the two-element array, and the observation raises \<^verbatim>\<open>TypeError\<close> instead of returning
  the goal side.
\<close>

theorem ppo_hint_defect:
  assumes "0 \<le> drawn" "drawn < 1"
  shows "(\<not> ppo_at_decision_cell (ppo_place_goal chosen e) \<longrightarrow>
            ppo_arrow drawn (ppo_place_goal chosen e) = Inr 0)
       \<and> (ppo_at_decision_cell (ppo_place_goal chosen e) \<longrightarrow>
            ppo_arrow drawn (ppo_place_goal chosen e) = Inl TypeError)"
proof -
  have "drawn = 0" using assms by simp
  then show ?thesis
    by (simp add: ppo_arrow_def ppo_at_decision_cell_def ppo_place_goal_def py_float_def
        array_eq_tuple_def)
qed

theorem ppo_hint_defect_witness:
  "(0::int) \<le> 0 \<and> (0::int) < 1
   \<and> \<not> ppo_at_decision_cell (ppo9 (4, 7)) \<and> ppo_arrow 0 (ppo9 (4, 7)) = Inr 0
   \<and> ppo_at_decision_cell (ppo9 (4, 1)) \<and> ppo_arrow 0 (ppo9 (4, 1)) = Inl TypeError"
proof -
  have z: "(0::int) \<le> 0" "(0::int) < 1" by simp_all
  have c: "\<not> ppo_at_decision_cell (ppo9 (4, 7))" "ppo_at_decision_cell (ppo9 (4, 1))"
    by (simp_all add: ppo_at_decision_cell_def ppo9_def ppo_place_goal_def)
  show ?thesis
    using ppo_hint_defect [OF z, of "(1, 1)"
        "\<lparr> ppo_width = 9, ppo_height = 9, ppo_agent_pos = (4, 7), ppo_goal_position = (0, 0),
           ppo_arrow_position = [] \<rparr>"]
      ppo_hint_defect [OF z, of "(1, 1)"
        "\<lparr> ppo_width = 9, ppo_height = 9, ppo_agent_pos = (4, 1), ppo_goal_position = (0, 0),
           ppo_arrow_position = [] \<rparr>"] c
    by (simp add: ppo9_def)
qed

lemma hint_consistent_reset:
  assumes "valid_size e" "numpy_contract G"
  shows "hint_consistent (snd (reset G seed e))"
  by (simp add: reset_run [OF assms] hint_consistent_def goal_side_encoding_def
      before_first_obs_def generated_def Let_def)

lemma hint_consistent_step:
  assumes "boxes_inside e" "hint_consistent e"
  shows "hint_consistent (snd (step G action e))"
proof -
  have "hint_consistent (counted e)"
       "hint_consistent ((counted e)\<lparr> agent_pos := fwd_pos_of action (agent_pos e) \<rparr>)"
       "hint_consistent (after_obs G (after_move (counted e) (fwd_pos_of action (agent_pos e))))"
    using assms(2)
    by (simp_all add: hint_consistent_def goal_side_encoding_def counted_def after_move_def
        split: option.split)
  with step_state_cases [OF assms(1), of G action] show ?thesis by auto
qed

lemma one_in_encoding: "1 \<in> set (goal_side_encoding e)"
  by (simp add: goal_side_encoding_def action_space_n_def numeral_eq_Suc)

text \<open>
  In main_dqn.py the observation carries the encoding of the goal side exactly at the
  decision cell; anywhere else it carries the four numbers of one \<^verbatim>\<open>uniform(-1, 1)\<close>
  draw, taken from a generator state that depends on the episode counter and on the
  generator only, not on the goal side.
\<close>

lemma oracle_hint_dqn:
  assumes G: "numpy_contract G" and bi: "boxes_inside e" and hc: "hint_consistent e"
  shows "fst (gen_obs G e) = Inr (obs_of G e)
       \<and> (arrow (obs_of G e) = goal_side_encoding e \<longleftrightarrow> at_decision_cell e)
       \<and> (\<not> at_decision_cell e \<longrightarrow>
            arrow (obs_of G e) =
              fst (rng_uniform G (- 1) 1 action_space_n
                    (if past_threshold e then np_random e else gen_after G 4 (np_random e))))"
proof -
  let ?n = "fst (noise_drawn G e)"
  have "\<forall>x \<in> set ?n. - 1 \<le> x \<and> x < 1"
    using G unfolding numpy_contract_def noise_drawn_def
    by (elim conjE allE [of _ "- 1 :: real"] allE [of _ "1 :: real"] allE [of _ action_space_n]
        allE [of _ "snd (decoys_placed G e)"]) simp
  then have "1 \<notin> set ?n" by auto
  then have ne: "?n \<noteq> goal_side_encoding e"
    using one_in_encoding [of e] by auto
  show ?thesis
    using ne hc
    by (simp add: gen_obs_run [OF bi] obs_of_def hint_consistent_def noise_drawn_def
        decoys_placed_gen)
qed

lemma corner_not_box:
  assumes "7 \<le> h"
  shows "(x, 1) \<notin> set (box_locations w h)"
proof -
  have "2 \<le> h * 2 div 3 - 2" using assms by presburger
  then show ?thesis
    by (simp add: box_locations_def left_box_def right_box_def up_box_def down_box_def)
qed

lemma maze_walls_plain: "cells (maze_walls w h) p = None \<or> cells (maze_walls w h) p = Some Wall"
  by (simp add: maze_walls_def cells_paint_h cells_paint_v cells_empty_grid)

lemma decoys_box_values:
  assumes "p \<in> set (box_locations (width e) (height e))"
  shows "cells (fst (decoys_placed G e)) p = None \<or> cells (fst (decoys_placed G e)) p = Some grey_box"
proof (cases "past_threshold e")
  case True
  from decoys_fixed_cell [OF True assms, of G] show ?thesis by simp
next
  case False
  from assms obtain i where i: "i < 4" "box_locations (width e) (height e) ! i = p"
    by (auto simp add: in_set_conv_nth)
  from decoys_random_cell [OF False i(1), of G] i(2) show ?thesis by simp
qed

lemma np_random_reseeded:
  "np_random ((reseeded G seed (e\<lparr> num_episodes := n \<rparr>))\<lparr> agent_pos := a, agent_dir := d \<rparr>)
   = np_random (reseeded G seed e)"
  by (simp add: reseeded_def split: option.split)

lemma first_grid_cells:
  "cells (grid (before_first_obs G seed e)) p =
     (if p = (if goal_choice_of G seed e = 0 then (width e - 2, 1) else (1, 1)) then Some Lava
      else if p = (if goal_choice_of G seed e = 0 then (1, 1) else (width e - 2, 1))
      then Some (Goal Green)
      else cells (maze_walls (width e) (height e)) p)"
  by (simp add: before_first_obs_def generated_def Let_def cells_put_cell goal_choice_of_def
      np_random_reseeded)

lemma first_positions:
  "goal_position (before_first_obs G seed e)
     = Some (if goal_choice_of G seed e = 0 then (1, 1) else (width e - 2, 1))"
  "lava_position (before_first_obs G seed e)
     = Some (if goal_choice_of G seed e = 0 then (width e - 2, 1) else (1, 1))"
  by (simp_all add: before_first_obs_def generated_def Let_def goal_choice_of_def
      np_random_reseeded)

text \<open>
  Claim C2, as amended, for the environment of main_dqn.py. On an odd grid at least 5 wide
  and at least 7 high, every reset returns, and in the state it leaves: the corner named by
  the single \<^verbatim>\<open>integers(2)\<close> draw (0 the left corner \<open>(1, 1)\<close>, 1 the right corner
  \<open>(width - 2, 1)\<close>) holds the green Goal, the other corner holds the Lava, so the two corners
  never hold the same kind of object; no other cell holds a green Goal or a Lava; and
  \<open>goal_position\<close> and \<open>lava_position\<close> name those two corners.
\<close>

theorem corners_after_reset:
  assumes sz: "valid_size e" and h7: "7 \<le> height e" and G: "numpy_contract G"
  shows "fst (reset G seed e) = Inr (obs_of G (before_first_obs G seed e))
       \<and> goal_choice_of G seed e \<in> {0, 1}
       \<and> cells (grid (snd (reset G seed e))) (1, 1)
           = Some (if goal_choice_of G seed e = 0 then Goal Green else Lava)
       \<and> cells (grid (snd (reset G seed e))) (width e - 2, 1)
           = Some (if goal_choice_of G seed e = 0 then Lava else Goal Green)
       \<and> (\<forall>p. cells (grid (snd (reset G seed e))) p = Some (Goal Green)
              \<or> cells (grid (snd (reset G seed e))) p = Some Lava
              \<longrightarrow> p = (1, 1) \<or> p = (width e - 2, 1))
       \<and> goal_position (snd (reset G seed e))
           = Some (if goal_choice_of G seed e = 0 then (1, 1) else (width e - 2, 1))
       \<and> lava_position (snd (reset G seed e))
           = Some (if goal_choice_of G seed e = 0 then (width e - 2, 1) else (1, 1))"
proof -
  let ?b = "before_first_obs G seed e"
  let ?w = "width e"
  have w5: "5 \<le> ?w" using sz by (simp add: valid_size_def)
  then have ne: "(1::int, 1::int) \<noteq> (?w - 2, 1)" by simp
  have gc: "goal_choice_of G seed e \<in> {0, 1}"
    unfolding goal_choice_of_def by (rule numpy_integers [OF G])
  have out: "(x, 1) \<notin> set (box_locations (width ?b) (height ?b))" for x
    using corner_not_box [OF h7] by simp
  have corner: "cells (grid (after_obs G ?b)) (x, 1) = cells (grid ?b) (x, 1)" for x
    by (rule after_obs_frame [OF out])
  have other: "p = (1, 1) \<or> p = (?w - 2, 1)"
    if "cells (grid (after_obs G ?b)) p = Some (Goal Green)
        \<or> cells (grid (after_obs G ?b)) p = Some Lava" for p
  proof (cases "p \<in> set (box_locations (width ?b) (height ?b))")
    case True
    from decoys_box_values [OF True, of G] that show ?thesis
      by (auto simp add: after_obs_def grey_box_def)
  next
    case False
    then have "cells (grid (after_obs G ?b)) p = cells (grid ?b) p"
      by (rule after_obs_frame)
    with that maze_walls_plain [of ?w "height e" p] show ?thesis
      by (auto simp add: first_grid_cells split: if_splits)
  qed
  show ?thesis
    using gc ne other
    by (simp add: reset_run [OF sz G] corner first_grid_cells first_positions)
qed

lemma ppo_gen_grid_run:
  assumes odd: "w mod 2 = 1" "h mod 2 = 1" and big: "3 \<le> w" "3 \<le> h"
    and c: "chosen = (1, 1) \<or> chosen = (w - 2, 1)"
  shows "ppo_gen_grid chosen w h = Inr (put_cell (maze_walls w h) chosen (Some (Goal Green)))"
proof -
  let ?g4 = "paint_v (w - 1) 0 h (paint_v 0 0 h (paint_h 0 (h - 1) w (paint_h 0 0 w (empty_grid w h))))"
  let ?g5 = "paint_v (w div 2 - 1) 2 (h - 3) ?g4"
  let ?g6 = "paint_v (w div 2 + 1) 2 (h - 3) ?g5"
  let ?g7 = "paint_h 0 0 w ?g6"
  let ?g8 = "paint_h 0 2 (w div 2) ?g7"
  let ?g9 = "paint_h (w div 2 + 1) 2 (w div 2) ?g8"
  have half: "0 \<le> w div 2 - 1" "w div 2 + 1 < w" "w div 2 + 1 + w div 2 \<le> w" "w div 2 \<le> w"
    using odd big by presburger+
  have 4: "wall_rect 0 0 w h (empty_grid w h) = (Inr (), ?g4)"
    using big by (intro wall_rect_run) simp_all
  have 5: "vert_wall (w div 2 - 1) 2 (h - 3) ?g4 = (Inr (), ?g5)"
    using big half by (intro vert_wall_run) (simp add: fits_v_def)
  have 6: "vert_wall (w div 2 + 1) 2 (h - 3) ?g5 = (Inr (), ?g6)"
    using big half by (intro vert_wall_run) (simp add: fits_v_def)
  have 7: "horz_wall 0 0 w ?g6 = (Inr (), ?g7)"
    using big by (intro horz_wall_run) (simp add: fits_h_def)
  have 8: "horz_wall 0 2 (w div 2) ?g7 = (Inr (), ?g8)"
    using big half by (intro horz_wall_run) (simp add: fits_h_def)
  have 9: "horz_wall (w div 2 + 1) 2 (w div 2) ?g8 = (Inr (), ?g9)"
    using big half by (intro horz_wall_run) (simp add: fits_h_def)
  have ins: "inside ?g9 (fst chosen) (snd chosen)"
    using c big by (auto simp add: inside_def)
  have g0: "Grid_init w h = Inr (empty_grid w h)"
    using big by (simp add: Grid_init_def empty_grid_def)
  show ?thesis
    using odd
    by (simp add: ppo_gen_grid_def g0 block_Cons block_Nil seq_apply 4 5 6 7 8 9
        grid_set_inside [OF ins] ret_def maze_walls_def)
qed

lemma fresh5_fields [simp]:
  "width fresh5 = 5" "height fresh5 = 5" "max_steps fresh5 = 50"
  "num_episodes fresh5 = 0" "path_episode_threshold fresh5 = 2000" "np_random fresh5 = 0"
  by (simp_all add: fresh5_def TMaze_init_def Grid_init_def)

lemma valid_size_fresh5: "valid_size fresh5"
  by (simp add: valid_size_def)

lemma boxes5: "box_locations 5 5 = [(2, 2), (4, 2), (3, 1), (3, 3)]"
  by (simp add: box_locations_def left_box_def right_box_def up_box_def down_box_def)

text \<open>
  The claim as stated fails in both files. main.py places the Goal and nothing else: after
  its \<^verbatim>\<open>_gen_grid\<close> on size 9 with the left corner chosen, the right corner \<open>(7, 1)\<close> is
  empty. In main_dqn.py on size 5 the upper candidate decoy cell is the right corner
  \<open>(3, 1)\<close>: the reset with seed 2 draws the goal side 0, \<^verbatim>\<open>_gen_grid\<close> puts the Lava on
  \<open>(3, 1)\<close>, and the first observation empties that cell and puts the grey decoy there, so
  that the reset returns with a Goal object on both corners and no Lava.
\<close>

theorem corners_after_reset_counterexample:
  "ppo_gen_grid (1, 1) 9 9 = Inr (put_cell (maze_walls 9 9) (1, 1) (Some (Goal Green)))
   \<and> cells (put_cell (maze_walls 9 9) (1, 1) (Some (Goal Green))) (1, 1) = Some (Goal Green)
   \<and> cells (put_cell (maze_walls 9 9) (1, 1) (Some (Goal Green))) (7, 1) = None
   \<and> fst (reset toy_generator (Some 2) fresh5)
       = Inr (obs_of toy_generator (before_first_obs toy_generator (Some 2) fresh5))
   \<and> lava_position (snd (reset toy_generator (Some 2) fresh5)) = Some (3, 1)
   \<and> cells (grid (before_first_obs toy_generator (Some 2) fresh5)) (3, 1) = Some Lava
   \<and> cells (grid (snd (reset toy_generator (Some 2) fresh5))) (1, 1) = Some (Goal Green)
   \<and> cells (grid (snd (reset toy_generator (Some 2) fresh5))) (3, 1) = Some (Goal Grey)"
proof -
  let ?b = "before_first_obs toy_generator (Some 2) fresh5"
  have ppo: "ppo_gen_grid (1, 1) 9 9 = Inr (put_cell (maze_walls 9 9) (1, 1) (Some (Goal Green)))"
    by (rule ppo_gen_grid_run) simp_all
  have empty: "cells (put_cell (maze_walls 9 9) (1, 1) (Some (Goal Green))) (7, 1) = None"
    by (simp add: cells_put_cell maze_walls_def cells_paint_h cells_paint_v cells_empty_grid)
  have gc: "goal_choice_of toy_generator (Some 2) fresh5 = 0"
    by (simp add: goal_choice_of_def reseeded_def toy_generator_def)
  have np: "np_random ?b = 3"
    by (simp add: before_first_obs_def generated_def reseeded_def Let_def toy_generator_def)
  have nb: "\<not> past_threshold ?b" by (simp add: past_threshold_def)
  have d: "nth_draw toy_generator ?b (Suc (Suc 0)) = 0"
    by (simp add: nth_draw_def np toy_draws)
  from decoys_random_cell [OF nb, of "Suc (Suc 0)" toy_generator]
  have decoy: "cells (fst (decoys_placed toy_generator ?b)) (3, 1) = Some (Goal Grey)"
    by (simp add: boxes5 d grey_box_def)
  have "(1, 1) \<notin> set (box_locations (width ?b) (height ?b))"
    by (simp add: boxes5)
  then have left: "cells (grid (after_obs toy_generator ?b)) (1, 1) = Some (Goal Green)"
    by (simp add: after_obs_frame first_grid_cells gc)
  have lava: "cells (grid ?b) (3, 1) = Some Lava"
    by (simp add: first_grid_cells gc)
  show ?thesis
    using ppo empty left lava decoy
    by (simp add: reset_run [OF valid_size_fresh5 toy_contract] first_positions gc
        cells_put_cell after_obs_def)
qed

theorem corners_after_reset_witness:
  "valid_size fresh11 \<and> 7 \<le> height fresh11 \<and> numpy_contract toy_generator
   \<and> goal_choice_of toy_generator (Some 1) fresh11 = 1
   \<and> fst (reset toy_generator (Some 1) fresh11)
       = Inr (obs_of toy_generator (before_first_obs toy_generator (Some 1) fresh11))
   \<and> cells (grid (snd (reset toy_generator (Some 1) fresh11))) (1, 1) = Some Lava
   \<and> cells (grid (snd (reset toy_generator (Some 1) fresh11))) (9, 1) = Some (Goal Green)
   \<and> goal_position (snd (reset toy_generator (Some 1) fresh11)) = Some (9, 1)
   \<and> lava_position (snd (reset toy_generator (Some 1) fresh11)) = Some (1, 1)"
proof -
  have h: "7 \<le> height fresh11" by simp
  have gc: "goal_choice_of toy_generator (Some 1) fresh11 = 1"
    by (simp add: goal_choice_of_def reseeded_def toy_generator_def)
  from corners_after_reset [OF valid_size_fresh11 h toy_contract, of "Some 1"]
  show ?thesis
    using valid_size_fresh11 toy_contract gc by simp
qed

lemma first_map_same:
  assumes "width e2 = width e1" "height e2 = height e1"
  shows "grid (before_first_obs G (Some s) e2) = grid (before_first_obs G (Some s) e1)"
    "agent_pos (before_first_obs G (Some s) e2) = agent_pos (before_first_obs G (Some s) e1)"
    "agent_dir (before_first_obs G (Some s) e2) = agent_dir (before_first_obs G (Some s) e1)"
    "goal_position (before_first_obs G (Some s) e2) = goal_position (before_first_obs G (Some s) e1)"
    "lava_position (before_first_obs G (Some s) e2) = lava_position (before_first_obs G (Some s) e1)"
    "arrow_q_values (before_first_obs G (Some s) e2) = arrow_q_values (before_first_obs G (Some s) e1)"
    "np_random (before_first_obs G (Some s) e2) = np_random (before_first_obs G (Some s) e1)"
    "width (before_first_obs G (Some s) e2) = width (before_first_obs G (Some s) e1)"
    "height (before_first_obs G (Some s) e2) = height (before_first_obs G (Some s) e1)"
  using assms
  by (simp_all add: before_first_obs_def generated_def reseeded_def Let_def)

lemma decoys_placed_same:
  assumes "grid e2 = grid e1" "width e2 = width e1" "height e2 = height e1"
    "goal_position e2 = goal_position e1" "agent_pos e2 = agent_pos e1"
    "np_random e2 = np_random e1" "past_threshold e2 = past_threshold e1"
  shows "decoys_placed G e2 = decoys_placed G e1"
  using assms by (simp add: decoys_placed_def cleared_def)

lemma toy_uniform:
  "fst (rng_uniform toy_generator lo hi k n)
   = map (\<lambda>i. lo + (hi - lo) * (real ((n + i) mod 8) / 8)) [0..<k]"
  by (simp add: toy_generator_def)

lemma toy_hint_after_draws: "fst (rng_uniform toy_generator (- 1) 1 4 6) = [1 / 2, 3 / 4, - 1, - 3 / 4]"
  by (simp add: toy_uniform upt_rec)

lemma toy_hint_at_once: "fst (rng_uniform toy_generator (- 1) 1 4 2) = [- 1 / 2, - 1 / 4, 0, 1 / 4]"
  by (simp add: toy_uniform upt_rec)

text \<open>
  Claim C9, as amended. Two resets with the same seed, on environments of the same valid
  size, both return, and they agree on the agent's start pose, on the goal side and the
  hazard side, and on every cell of the grid other than the four candidate decoy cells
  (walls included). If moreover the two resets fall on the same side of the
  curriculum threshold, they agree on the whole first observation, first hint included, on
  the whole grid and on the generator state they leave.
\<close>

theorem same_seed_same_reset:
  assumes sz: "valid_size e1" and G: "numpy_contract G"
    and w: "width e2 = width e1" and h: "height e2 = height e1"
  shows "(\<exists>ob1 ob2. fst (reset G (Some s) e1) = Inr ob1 \<and> fst (reset G (Some s) e2) = Inr ob2
            \<and> position ob2 = position ob1 \<and> direction ob2 = direction ob1)
       \<and> agent_pos (snd (reset G (Some s) e2)) = agent_pos (snd (reset G (Some s) e1))
       \<and> agent_dir (snd (reset G (Some s) e2)) = agent_dir (snd (reset G (Some s) e1))
       \<and> goal_position (snd (reset G (Some s) e2)) = goal_position (snd (reset G (Some s) e1))
       \<and> lava_position (snd (reset G (Some s) e2)) = lava_position (snd (reset G (Some s) e1))
       \<and> (\<forall>p. p \<notin> set (box_locations (width e1) (height e1)) \<longrightarrow>
              cells (grid (snd (reset G (Some s) e2))) p
              = cells (grid (snd (reset G (Some s) e1))) p)
       \<and> ((num_episodes e2 + 1 > path_episode_threshold e2)
            = (num_episodes e1 + 1 > path_episode_threshold e1) \<longrightarrow>
            fst (reset G (Some s) e2) = fst (reset G (Some s) e1)
          \<and> grid (snd (reset G (Some s) e2)) = grid (snd (reset G (Some s) e1))
          \<and> np_random (snd (reset G (Some s) e2)) = np_random (snd (reset G (Some s) e1)))"
proof -
  let ?b1 = "before_first_obs G (Some s) e1" and ?b2 = "before_first_obs G (Some s) e2"
  have sz2: "valid_size e2" using sz w h by (simp add: valid_size_def)
  note m = first_map_same [OF w h, of G s]
  have r1: "reset G (Some s) e1 = (Inr (obs_of G ?b1), after_obs G ?b1)"
    by (rule reset_run [OF sz G])
  have r2: "reset G (Some s) e2 = (Inr (obs_of G ?b2), after_obs G ?b2)"
    by (rule reset_run [OF sz2 G])
  have frame: "cells (grid (after_obs G ?b2)) p = cells (grid (after_obs G ?b1)) p"
    if "p \<notin> set (box_locations (width e1) (height e1))" for p
    using that after_obs_frame [of p ?b1 G] after_obs_frame [of p ?b2 G] w h
    by (simp add: m(1))
  have side: "decoys_placed G ?b2 = decoys_placed G ?b1"
    if "(num_episodes e2 + 1 > path_episode_threshold e2)
        = (num_episodes e1 + 1 > path_episode_threshold e1)"
    using w h that by (intro decoys_placed_same) (simp_all add: m past_threshold_def)
  have obs_same: "obs_of G ?b2 = obs_of G ?b1" if "decoys_placed G ?b2 = decoys_placed G ?b1"
    using that w h by (simp add: obs_of_def noise_drawn_def at_decision_cell_def m)
  have st_same: "grid (after_obs G ?b2) = grid (after_obs G ?b1)"
      "np_random (after_obs G ?b2) = np_random (after_obs G ?b1)"
    if "decoys_placed G ?b2 = decoys_placed G ?b1"
    using that by (simp_all add: after_obs_def noise_drawn_def)
  show ?thesis
    unfolding r1 r2
    using frame side obs_same st_same w h
    by (simp add: m obs_of_def)
qed

theorem same_seed_same_reset_witness:
  "valid_size fresh11 \<and> numpy_contract toy_generator
   \<and> width start11 = width fresh11 \<and> height start11 = height fresh11
   \<and> num_episodes fresh11 = 0 \<and> num_episodes start11 = 1
   \<and> path_episode_threshold fresh11 = 2000 \<and> path_episode_threshold start11 = 2000
   \<and> fst (reset toy_generator (Some 1) fresh11)
       = Inr \<lparr> direction = 3, mission = ''get to the green goal square'', position = (5, 9),
               arrow = [1 / 2, 3 / 4, - 1, - 3 / 4] \<rparr>
   \<and> fst (reset toy_generator (Some 1) start11) = fst (reset toy_generator (Some 1) fresh11)
   \<and> grid (snd (reset toy_generator (Some 1) start11))
       = grid (snd (reset toy_generator (Some 1) fresh11))
   \<and> goal_position (snd (reset toy_generator (Some 1) start11)) = Some (9, 1)
   \<and> goal_position (snd (reset toy_generator (Some 1) fresh11)) = Some (9, 1)
   \<and> (9, 1) \<notin> set (box_locations (width fresh11) (height fresh11))
   \<and> cells (grid (snd (reset toy_generator (Some 1) start11))) (9, 1) = Some (Goal Green)
   \<and> np_random (snd (reset toy_generator (Some 1) start11)) = 10"
proof -
  let ?b = "before_first_obs toy_generator (Some 1) fresh11"
  have w: "width start11 = width fresh11" and h: "height start11 = height fresh11"
    by simp_all
  have nb: "\<not> past_threshold ?b" by (simp add: past_threshold_def)
  have st: "snd (decoys_placed toy_generator ?b) = 6"
    by (simp add: decoys_placed_gen nb first11_fields gen_after_toy)
  have hint: "fst (noise_drawn toy_generator ?b) = [1 / 2, 3 / 4, - 1, - 3 / 4]"
    by (simp add: noise_drawn_def st action_space_n_def toy_hint_after_draws)
  have first: "fst (reset toy_generator (Some 1) fresh11)
       = Inr \<lparr> direction = 3, mission = ''get to the green goal square'', position = (5, 9),
               arrow = [1 / 2, 3 / 4, - 1, - 3 / 4] \<rparr>"
    by (simp add: reset_run [OF valid_size_fresh11 toy_contract] obs_of_def
        at_decision_cell_def hint)
  have g: "goal_position (snd (reset toy_generator (Some 1) fresh11)) = Some (9, 1)"
      "np_random (snd (reset toy_generator (Some 1) fresh11)) = 10"
      "cells (grid (snd (reset toy_generator (Some 1) fresh11))) (9, 1) = Some (Goal Green)"
    using start11_goal_position start11_gen start11_goal by (simp_all add: start11_def)
  from same_seed_same_reset [OF valid_size_fresh11 toy_contract w h, of 1]
  show ?thesis
    using first g by (simp add: valid_size_fresh11 toy_contract boxes11)
qed

text \<open>
  The claim as stated fails across the curriculum threshold. The environment of size 11 has
  completed 1999 episodes and is reset twice with seed 1. Both resets return, with the same
  start pose; the first, which starts episode 2000, draws \<^verbatim>\<open>random()\<close> four times before
  it draws the hint, the second, which starts episode 2001, draws the hint at once, and the
  two first hints differ.
\<close>

theorem same_seed_same_reset_counterexample:
  "fst first_reset
     = Inr \<lparr> direction = 3, mission = ''get to the green goal square'', position = (5, 9),
             arrow = [1 / 2, 3 / 4, - 1, - 3 / 4] \<rparr>
   \<and> fst second_reset
     = Inr \<lparr> direction = 3, mission = ''get to the green goal square'', position = (5, 9),
             arrow = [- 1 / 2, - 1 / 4, 0, 1 / 4] \<rparr>
   \<and> num_episodes (snd first_reset) = 2000 \<and> num_episodes (snd second_reset) = 2001
   \<and> path_episode_threshold (snd second_reset) = 2000"
proof -
  let ?b1 = "before_first_obs toy_generator (Some 1) almost11"
  let ?e = "after_obs toy_generator ?b1"
  let ?b2 = "before_first_obs toy_generator (Some 1) ?e"
  have a: "width almost11 = 11" "height almost11 = 11" "num_episodes almost11 = 1999"
    "path_episode_threshold almost11 = 2000"
    by (simp_all add: almost11_def)
  have v1: "valid_size almost11" by (simp add: valid_size_def a)
  have v2: "valid_size ?e" by (simp add: valid_size_def a)
  have r1: "first_reset = (Inr (obs_of toy_generator ?b1), ?e)"
    by (simp add: first_reset_def reset_run [OF v1 toy_contract])
  have r2: "second_reset = (Inr (obs_of toy_generator ?b2), after_obs toy_generator ?b2)"
    by (simp add: second_reset_def r1 reset_run [OF v2 toy_contract])
  have n1: "\<not> past_threshold ?b1" by (simp add: past_threshold_def a)
  have n2: "past_threshold ?b2" by (simp add: past_threshold_def a)
  have s1: "snd (decoys_placed toy_generator ?b1) = 6"
    by (simp add: decoys_placed_gen n1 first11_fields gen_after_toy)
  have s2: "snd (decoys_placed toy_generator ?b2) = 2"
    by (simp add: decoys_placed_gen n2 first11_fields)
  have h1: "fst (noise_drawn toy_generator ?b1) = [1 / 2, 3 / 4, - 1, - 3 / 4]"
    by (simp add: noise_drawn_def s1 action_space_n_def toy_hint_after_draws)
  have h2: "fst (noise_drawn toy_generator ?b2) = [- 1 / 2, - 1 / 4, 0, 1 / 4]"
    by (simp add: noise_drawn_def s2 action_space_n_def toy_hint_at_once)
  show ?thesis
    by (simp add: r1 r2 obs_of_def at_decision_cell_def a h1 h2)
qed

end
